theory Spec2Isabelle
  imports Main "HOL-Library.Char_ord" "HOL-Library.List_Lexorder" "HOL-Library.AList"
    "HOL-Library.Sublist"
begin

section \<open>Configuration (src/config.py)\<close>

text \<open>The module constants of \<^verbatim>\<open>config.py\<close>. Python integers are unbounded, hence \<open>int\<close>.
  The dictionaries are association lists in insertion order, the order in which
  \<^verbatim>\<open>.items()\<close> enumerates them.\<close>

definition MATCHES_PER_CLUB :: int where
  "MATCHES_PER_CLUB = 8"

definition JOURNEES :: int where
  "JOURNEES = 8"

definition HOME_MATCHES_PER_CLUB :: int where
  "HOME_MATCHES_PER_CLUB = 4"

definition AWAY_MATCHES_PER_CLUB :: int where
  "AWAY_MATCHES_PER_CLUB = 4"

definition TOTAL_CLUBS :: int where
  "TOTAL_CLUBS = 36"

definition OPPONENTS_PER_CHAPEAU :: "(int \<times> int) list" where
  "OPPONENTS_PER_CHAPEAU = [(1, 2), (2, 2), (3, 2), (4, 2)]"

definition MAX_SAME_COUNTRY_OPPONENTS :: int where
  "MAX_SAME_COUNTRY_OPPONENTS = 0"

definition MAX_OPPONENTS_PER_FOREIGN_COUNTRY :: int where
  "MAX_OPPONENTS_PER_FOREIGN_COUNTRY = 2"

definition DISTRIBUTION_CHAPEAUX :: "(int \<times> int \<times> int) list" where
  "DISTRIBUTION_CHAPEAUX = [(1, (1, 1)), (2, (1, 1)), (3, (1, 1)), (4, (1, 1))]"

definition MAX_CONSECUTIVE_HOME_MATCHES :: int where
  "MAX_CONSECUTIVE_HOME_MATCHES = 2"

definition MAX_CONSECUTIVE_AWAY_MATCHES :: int where
  "MAX_CONSECUTIVE_AWAY_MATCHES = 2"

definition get_expected_total_matches :: int where
  "get_expected_total_matches = (TOTAL_CLUBS * MATCHES_PER_CLUB) div 2"

text \<open>\<^verbatim>\<open>d.get(k, default)\<close> on a dictionary.\<close>

definition dict_get :: "('k \<rightharpoonup> 'v) \<Rightarrow> 'k \<Rightarrow> 'v \<Rightarrow> 'v" where
  "dict_get m k dflt = (case m k of None \<Rightarrow> dflt | Some v \<Rightarrow> v)"

section \<open>Entity model (src/models)\<close>

subsection \<open>Club (club.py)\<close>

datatype Chapeau = CHAPEAU_1 | CHAPEAU_2 | CHAPEAU_3 | CHAPEAU_4

text \<open>The enum member's \<^verbatim>\<open>.value\<close>.\<close>

fun chapeau_value :: "Chapeau \<Rightarrow> int" where
  "chapeau_value CHAPEAU_1 = 1"
| "chapeau_value CHAPEAU_2 = 2"
| "chapeau_value CHAPEAU_3 = 3"
| "chapeau_value CHAPEAU_4 = 4"

text \<open>The field \<^verbatim>\<open>id\<close> is \<open>id_club\<close> here, since \<open>id\<close> is the identity function of HOL.
  Strings are byte strings; their order (\<open>Char_ord\<close>, \<open>List_Lexorder\<close>) is the
  lexicographic order on code units, which is the order Python compares \<^verbatim>\<open>str\<close> by.

  The field \<^verbatim>\<open>chapeau\<close> is annotated \<^verbatim>\<open>Chapeau\<close>, but \<^verbatim>\<open>__post_init__\<close> does not look at it, so
  the type of what the field holds is a parameter of the record. \<open>Chapeau Club\<close> is a club
  as the annotation declares it. Whatever does not read the pot is defined for every
  \<open>'pot\<close>; the two rules that read \<^verbatim>\<open>chapeau.value\<close> are defined on \<open>Chapeau Club\<close>, and once
  more, further down, on clubs as the constructor accepts them.\<close>

record 'pot Club =
  id_club :: string
  nom :: string
  pays :: string
  chapeau :: 'pot

text \<open>\<^verbatim>\<open>Club.__eq__\<close>: two clubs are equal when their ids are.\<close>

definition club_eq :: "'pot Club \<Rightarrow> 'pot Club \<Rightarrow> bool" where
  "club_eq a b = (id_club a = id_club b)"

text \<open>A Python \<^verbatim>\<open>set\<close> of clubs: \<^verbatim>\<open>__hash__\<close> and \<^verbatim>\<open>__eq__\<close> go by id, so the set holds at
  most one club per id, and \<^verbatim>\<open>add\<close> keeps the member already there. The model is a list
  without two clubs of one id. Python leaves the iteration order of a set open; the
  list keeps insertion order, and no result below depends on it.\<close>

definition set_add :: "'pot Club list \<Rightarrow> 'pot Club \<Rightarrow> 'pot Club list" where
  "set_add s c = (if list_ex (\<lambda>x. club_eq x c) s then s else s @ [c])"

subsection \<open>Match (match.py)\<close>

record 'pot Match =
  club_home :: "'pot Club"
  club_away :: "'pot Club"
  journee :: int

text \<open>Every exception the entity model raises is a \<^verbatim>\<open>ValueError\<close>; the constructors tell the
  raise statements apart. \<open>AttributeError_value\<close> is what Python raises when \<^verbatim>\<open>.value\<close> is read
  on an object that has no such attribute.\<close>

datatype 'pot error =
    ValueError_self_match "'pot Club"
  | ValueError_journee int
  | ValueError_duplicate "'pot Match"
  | ValueError_id
  | ValueError_nom
  | ValueError_pays string
  | AttributeError_value

text \<open>The constructor with \<^verbatim>\<open>__post_init__\<close>: an invalid match is never built.\<close>

definition Match_init :: "'pot Club \<Rightarrow> 'pot Club \<Rightarrow> int \<Rightarrow> 'pot error + 'pot Match" where
  "Match_init h a j =
     (if club_eq h a then Inl (ValueError_self_match h)
      else if j < 1 \<or> j > 8 then Inl (ValueError_journee j)
      else Inr \<lparr>club_home = h, club_away = a, journee = j\<rparr>)"

text \<open>A well-constructed match is one the constructor returns.\<close>

definition well_constructed :: "'pot Match \<Rightarrow> bool" where
  "well_constructed m = (Match_init (club_home m) (club_away m) (journee m) = Inr m)"

definition implies_reverse_match :: "'pot Match \<Rightarrow> 'pot error + 'pot Match" where
  "implies_reverse_match m = Match_init (club_away m) (club_home m) (journee m)"

definition involves_club :: "'pot Match \<Rightarrow> 'pot Club \<Rightarrow> bool" where
  "involves_club m c = (club_eq c (club_home m) \<or> club_eq c (club_away m))"

definition opponent_of :: "'pot Match \<Rightarrow> 'pot Club \<Rightarrow> 'pot Club option" where
  "opponent_of m c =
     (if club_eq c (club_home m) then Some (club_away m)
      else if club_eq c (club_away m) then Some (club_home m)
      else None)"

text \<open>\<^verbatim>\<open>Match.__eq__\<close>: the directed identity (home id, away id, round).\<close>

definition match_eq :: "'pot Match \<Rightarrow> 'pot Match \<Rightarrow> bool" where
  "match_eq m other =
     (club_eq (club_home m) (club_home other)
      \<and> club_eq (club_away m) (club_away other)
      \<and> journee m = journee other)"

subsection \<open>Draw (draw.py)\<close>

record 'pot Draw =
  matches :: "'pot Match list"
  season :: string

text \<open>\<^verbatim>\<open>match in self.matches\<close>: some element equals the match under \<^verbatim>\<open>__eq__\<close>.\<close>

definition match_in :: "'pot Match \<Rightarrow> 'pot Match list \<Rightarrow> bool" where
  "match_in m ms = list_ex (\<lambda>e. match_eq e m) ms"

text \<open>\<^verbatim>\<open>add_match\<close> mutates the draw or raises. The model returns the outcome together
  with the draw as it is afterwards, so that the state left behind by a raise is
  visible.\<close>

definition add_match :: "'pot Draw \<Rightarrow> 'pot Match \<Rightarrow> ('pot error + unit) \<times> 'pot Draw" where
  "add_match d m =
     (if match_in m (matches d) then (Inl (ValueError_duplicate m), d)
      else (Inr (), d\<lparr>matches := matches d @ [m]\<rparr>))"

text \<open>\<^verbatim>\<open>add_matches\<close>: the loop stops at the first insertion that raises.\<close>

fun add_matches :: "'pot Draw \<Rightarrow> 'pot Match list \<Rightarrow> ('pot error + unit) \<times> 'pot Draw" where
  "add_matches d [] = (Inr (), d)"
| "add_matches d (m # ms) =
     (case add_match d m of
        (Inl e, d') \<Rightarrow> (Inl e, d')
      | (Inr _, d') \<Rightarrow> add_matches d' ms)"

definition get_matches_for_club :: "'pot Draw \<Rightarrow> 'pot Club \<Rightarrow> 'pot Match list" where
  "get_matches_for_club d c = filter (\<lambda>m. involves_club m c) (matches d)"

definition get_home_matches_for_club :: "'pot Draw \<Rightarrow> 'pot Club \<Rightarrow> 'pot Match list" where
  "get_home_matches_for_club d c = filter (\<lambda>m. club_eq (club_home m) c) (matches d)"

definition get_away_matches_for_club :: "'pot Draw \<Rightarrow> 'pot Club \<Rightarrow> 'pot Match list" where
  "get_away_matches_for_club d c = filter (\<lambda>m. club_eq (club_away m) c) (matches d)"

text \<open>The opponents are collected in a set and returned sorted by id. A club object is
  always truthy, so \<^verbatim>\<open>if opponent:\<close> only skips \<^verbatim>\<open>None\<close>.\<close>

definition get_opponents_for_club :: "'pot Draw \<Rightarrow> 'pot Club \<Rightarrow> 'pot Club list" where
  "get_opponents_for_club d c =
     sort_key id_club
       (fold (\<lambda>m opponents.
                case opponent_of m c of
                  Some opponent \<Rightarrow> set_add opponents opponent
                | None \<Rightarrow> opponents)
          (get_matches_for_club d c) [])"

definition get_number_of_matches_for_club :: "'pot Draw \<Rightarrow> 'pot Club \<Rightarrow> int" where
  "get_number_of_matches_for_club d c = int (length (get_matches_for_club d c))"

definition get_number_of_home_matches_for_club :: "'pot Draw \<Rightarrow> 'pot Club \<Rightarrow> int" where
  "get_number_of_home_matches_for_club d c = int (length (get_home_matches_for_club d c))"

definition get_number_of_away_matches_for_club :: "'pot Draw \<Rightarrow> 'pot Club \<Rightarrow> int" where
  "get_number_of_away_matches_for_club d c = int (length (get_away_matches_for_club d c))"

definition get_all_clubs :: "'pot Draw \<Rightarrow> 'pot Club list" where
  "get_all_clubs d =
     fold (\<lambda>m clubs. set_add (set_add clubs (club_home m)) (club_away m)) (matches d) []"

definition get_country_clashes_for_club :: "'pot Draw \<Rightarrow> 'pot Club \<Rightarrow> ('pot Club \<times> int) list" where
  "get_country_clashes_for_club d c =
     map (\<lambda>opponent.
            (opponent,
             int (length (filter (\<lambda>m. involves_club m c
                     \<and> (case opponent_of m c of
                          Some x \<Rightarrow> club_eq x opponent
                        | None \<Rightarrow> False))
                   (matches d)))))
       (filter (\<lambda>opponent. pays opponent = pays c) (get_opponents_for_club d c))"

section \<open>Constraint definitions (src/constraints/ucl_constraints.py)\<close>

datatype ConstraintType = UNARY | BINARY | GLOBAL | SOFT

text \<open>A constraint wraps its checking function. The free-text field \<^verbatim>\<open>description\<close> is
  left out: nothing reads it but \<^verbatim>\<open>get_constraint_details\<close>. The type of the checking
  function is a parameter: \<open>Chapeau Draw \<Rightarrow> bool\<close> for the rules on draws of declared type.\<close>

record 'f Constraint =
  name :: string
  constraint_type :: ConstraintType
  check_fn :: 'f
  severity :: string

definition is_satisfied :: "('d \<Rightarrow> 'r) Constraint \<Rightarrow> 'd \<Rightarrow> 'r" where
  "is_satisfied c d = check_fn c d"

subsection \<open>The checking functions\<close>

text \<open>Each check is a loop over the clubs of the draw that returns \<^verbatim>\<open>False\<close> at the first
  club failing its test and \<^verbatim>\<open>True\<close> after the last one: \<open>list_all\<close>.\<close>

definition check_total_matches :: "'pot Draw \<Rightarrow> bool" where
  "check_total_matches d = (int (length (matches d)) = get_expected_total_matches)"

definition check_matches_per_club :: "'pot Draw \<Rightarrow> bool" where
  "check_matches_per_club d =
     list_all (\<lambda>club. \<not> get_number_of_matches_for_club d club \<noteq> MATCHES_PER_CLUB)
       (get_all_clubs d)"

definition check_home_away_balance :: "'pot Draw \<Rightarrow> bool" where
  "check_home_away_balance d =
     list_all (\<lambda>club.
         let home = get_number_of_home_matches_for_club d club;
             away = get_number_of_away_matches_for_club d club
         in if home \<noteq> HOME_MATCHES_PER_CLUB then False
            else if away \<noteq> AWAY_MATCHES_PER_CLUB then False
            else True)
       (get_all_clubs d)"

text \<open>The tally of one club's opponents by pot.\<close>

definition opponents_by_chapeau :: "Chapeau Draw \<Rightarrow> Chapeau Club \<Rightarrow> (int \<rightharpoonup> int)" where
  "opponents_by_chapeau d club =
     fold (\<lambda>opponent tally.
             let ch = chapeau_value (chapeau opponent)
             in tally(ch \<mapsto> dict_get tally ch 0 + 1))
       (get_opponents_for_club d club) Map.empty"

definition check_opponents_per_chapeau :: "Chapeau Draw \<Rightarrow> bool" where
  "check_opponents_per_chapeau d =
     list_all (\<lambda>club.
         list_all (\<lambda>(ch, expected_count).
             \<not> dict_get (opponents_by_chapeau d club) ch 0 \<noteq> expected_count)
           OPPONENTS_PER_CHAPEAU)
       (get_all_clubs d)"

definition check_chapeau_home_away_distribution :: "Chapeau Draw \<Rightarrow> bool" where
  "check_chapeau_home_away_distribution d =
     list_all (\<lambda>club.
         list_all (\<lambda>(ch, (expected_home, expected_away)).
             let home_count = int (length (filter
                   (\<lambda>m. chapeau_value (chapeau (club_away m)) = ch)
                   (get_home_matches_for_club d club)));
                 away_count = int (length (filter
                   (\<lambda>m. chapeau_value (chapeau (club_home m)) = ch)
                   (get_away_matches_for_club d club)))
             in \<not> (home_count \<noteq> expected_home \<or> away_count \<noteq> expected_away))
           DISTRIBUTION_CHAPEAUX)
       (get_all_clubs d)"

definition check_no_same_country_opponents :: "'pot Draw \<Rightarrow> bool" where
  "check_no_same_country_opponents d =
     list_all (\<lambda>club.
         \<not> int (length (get_country_clashes_for_club d club)) > MAX_SAME_COUNTRY_OPPONENTS)
       (get_all_clubs d)"

text \<open>The inner loop of the foreign-country rule for one club: \<open>False\<close> is the early
  \<^verbatim>\<open>return False\<close>, \<open>True\<close> is the loop running to its end.\<close>

fun foreign_country_loop :: "'pot Club \<Rightarrow> 'pot Club list \<Rightarrow> (string \<rightharpoonup> int) \<Rightarrow> bool" where
  "foreign_country_loop club [] counts = True"
| "foreign_country_loop club (opp # opps) counts =
     (if pays opp = pays club then foreign_country_loop club opps counts
      else
        let counts' = counts(pays opp \<mapsto> dict_get counts (pays opp) 0 + 1)
        in if dict_get counts' (pays opp) 0 > MAX_OPPONENTS_PER_FOREIGN_COUNTRY then False
           else foreign_country_loop club opps counts')"

definition check_max_two_from_same_foreign_country :: "'pot Draw \<Rightarrow> bool" where
  "check_max_two_from_same_foreign_country d =
     list_all (\<lambda>club. foreign_country_loop club (get_opponents_for_club d club) Map.empty)
       (get_all_clubs d)"

text \<open>The home/away sequence of one club: its matches sorted by round (Python's
  \<^verbatim>\<open>sorted\<close> is stable, as \<open>sort_key\<close> is), each mapped to \<open>H\<close> or \<open>A\<close>.\<close>

definition venue_sequence :: "'pot Draw \<Rightarrow> 'pot Club \<Rightarrow> char list" where
  "venue_sequence d club =
     map (\<lambda>m. if club_eq (club_home m) club then CHR ''H'' else CHR ''A'')
       (sort_key journee (get_matches_for_club d club))"

text \<open>The loop over the sequence with its two streak counters.\<close>

fun consecutive_loop :: "char list \<Rightarrow> int \<Rightarrow> int \<Rightarrow> bool" where
  "consecutive_loop [] consecutive_home consecutive_away = True"
| "consecutive_loop (venue # rest) consecutive_home consecutive_away =
     (let (consecutive_home', consecutive_away') =
            (if venue = CHR ''H'' then (consecutive_home + 1, 0)
             else (0, consecutive_away + 1))
      in if consecutive_home' > MAX_CONSECUTIVE_HOME_MATCHES
            \<or> consecutive_away' > MAX_CONSECUTIVE_AWAY_MATCHES
         then False
         else consecutive_loop rest consecutive_home' consecutive_away')"

definition check_no_consecutive_matches :: "'pot Draw \<Rightarrow> bool" where
  "check_no_consecutive_matches d =
     list_all (\<lambda>club. consecutive_loop (venue_sequence d club) 0 0) (get_all_clubs d)"

subsection \<open>The rule set and the engine\<close>

record 'f UCLConstraints =
  constraints :: "'f Constraint list"

text \<open>\<^verbatim>\<open>_build_constraints\<close> appends the eight rules, in this order, to the list.\<close>

definition build_constraints ::
  "(Chapeau Draw \<Rightarrow> bool) Constraint list \<Rightarrow> (Chapeau Draw \<Rightarrow> bool) Constraint list" where
  "build_constraints cs = cs @
     [\<lparr>name = ''total_matches'', constraint_type = GLOBAL,
        check_fn = check_total_matches, severity = ''hard''\<rparr>,
      \<lparr>name = ''matches_per_club'', constraint_type = UNARY,
        check_fn = check_matches_per_club, severity = ''hard''\<rparr>,
      \<lparr>name = ''home_away_balance'', constraint_type = UNARY,
        check_fn = check_home_away_balance, severity = ''hard''\<rparr>,
      \<lparr>name = ''opponents_per_chapeau'', constraint_type = UNARY,
        check_fn = check_opponents_per_chapeau, severity = ''hard''\<rparr>,
      \<lparr>name = ''chapeau_home_away_distribution'', constraint_type = UNARY,
        check_fn = check_chapeau_home_away_distribution, severity = ''hard''\<rparr>,
      \<lparr>name = ''no_same_country_opponents'', constraint_type = BINARY,
        check_fn = check_no_same_country_opponents, severity = ''hard''\<rparr>,
      \<lparr>name = ''max_two_from_same_foreign_country'', constraint_type = UNARY,
        check_fn = check_max_two_from_same_foreign_country, severity = ''hard''\<rparr>,
      \<lparr>name = ''no_consecutive_matches'', constraint_type = UNARY,
        check_fn = check_no_consecutive_matches, severity = ''soft''\<rparr>]"

definition UCLConstraints_init :: "(Chapeau Draw \<Rightarrow> bool) UCLConstraints" where
  "UCLConstraints_init = \<lparr>constraints = build_constraints []\<rparr>"

definition get_all_constraints :: "'f UCLConstraints \<Rightarrow> 'f Constraint list" where
  "get_all_constraints U = constraints U"

definition get_hard_constraints :: "'f UCLConstraints \<Rightarrow> 'f Constraint list" where
  "get_hard_constraints U = filter (\<lambda>c. severity c = ''hard'') (constraints U)"

definition get_soft_constraints :: "'f UCLConstraints \<Rightarrow> 'f Constraint list" where
  "get_soft_constraints U = filter (\<lambda>c. severity c = ''soft'') (constraints U)"

text \<open>The loop shared by \<^verbatim>\<open>verify_all_constraints\<close> and \<^verbatim>\<open>verify_hard_constraints\<close>: the
  accumulator is the list \<^verbatim>\<open>violated\<close>.\<close>

fun verify_loop :: "('d \<Rightarrow> bool) Constraint list \<Rightarrow> 'd \<Rightarrow> string list \<Rightarrow> string list" where
  "verify_loop [] d violated = violated"
| "verify_loop (c # cs) d violated =
     (if \<not> is_satisfied c d then verify_loop cs d (violated @ [name c])
      else verify_loop cs d violated)"

definition verify_all_constraints ::
  "('d \<Rightarrow> bool) UCLConstraints \<Rightarrow> 'd \<Rightarrow> bool \<times> string list" where
  "verify_all_constraints U d =
     (let violated = verify_loop (constraints U) d []
      in (length violated = 0, violated))"

definition verify_hard_constraints ::
  "('d \<Rightarrow> bool) UCLConstraints \<Rightarrow> 'd \<Rightarrow> bool \<times> string list" where
  "verify_hard_constraints U d =
     (let violated = verify_loop (get_hard_constraints U) d []
      in (length violated = 0, violated))"

text \<open>The same loop with a ghost log: every call of \<^verbatim>\<open>is_satisfied\<close> appends the name of
  the rule it evaluates. The log is not part of the program; it makes the calls the
  loop performs countable.\<close>

fun verify_loop_logged ::
  "('d \<Rightarrow> bool) Constraint list \<Rightarrow> 'd \<Rightarrow> string list \<times> string list
     \<Rightarrow> string list \<times> string list" where
  "verify_loop_logged [] d (violated, evaluated) = (violated, evaluated)"
| "verify_loop_logged (c # cs) d (violated, evaluated) =
     (if \<not> is_satisfied c d
      then verify_loop_logged cs d (violated @ [name c], evaluated @ [name c])
      else verify_loop_logged cs d (violated, evaluated @ [name c]))"

section \<open>Draw validator (src/validators/draw_validator.py)\<close>

text \<open>The diagnostics are formatted strings in the source. Each constructor stands for
  one format string and carries the values interpolated into it, in the order they
  appear in the text.\<close>

datatype diagnostic =
    Self_match_interdit string int
  | Journee_hors_bornes int string string
  | Total_de_matchs int int
  | Club_matchs_a_la_journee string int int
  | Paire_jouee_plusieurs_fois string string "int list"
  | Club_domicile string int int
  | Club_exterieur string int int
  | Hard_constraints_violated "string list"
  | Soft_constraints_not_satisfied "string list"

record 'f DrawValidator =
  validator_constraints :: "'f UCLConstraints"

definition DrawValidator_init :: "(Chapeau Draw \<Rightarrow> bool) DrawValidator" where
  "DrawValidator_init = \<lparr>validator_constraints = UCLConstraints_init\<rparr>"

text \<open>Part a) of \<^verbatim>\<open>_check_internal_consistency\<close>: self-matches and round bounds.\<close>

definition check_bounds_and_self_matches :: "'pot Draw \<Rightarrow> diagnostic list" where
  "check_bounds_and_self_matches d =
     concat (map (\<lambda>m.
         (if id_club (club_home m) = id_club (club_away m)
          then [Self_match_interdit (id_club (club_home m)) (journee m)] else [])
         @ (if \<not> (1 \<le> journee m \<and> journee m \<le> JOURNEES)
            then [Journee_hors_bornes (journee m) (id_club (club_home m))
                    (id_club (club_away m))]
            else []))
       (matches d))"

text \<open>Part b): the total number of matches.\<close>

definition check_expected_total :: "'pot Draw \<Rightarrow> diagnostic list" where
  "check_expected_total d =
     (let expected_total = get_expected_total_matches
      in if int (length (matches d)) \<noteq> expected_total
         then [Total_de_matchs (int (length (matches d))) expected_total]
         else [])"

text \<open>Part c): the four dictionaries filled by one loop over the matches.
  \<^verbatim>\<open>pair_days\<close> is iterated with \<^verbatim>\<open>.items()\<close>, so it keeps its keys in insertion order: an
  association list. A set of rounds is a list without repetition.\<close>

record counters =
  per_day_per_club :: "(string \<times> int) \<rightharpoonup> int"
  pair_days :: "((string \<times> string) \<times> int list) list"
  home_count :: "string \<rightharpoonup> int"
  away_count :: "string \<rightharpoonup> int"

definition counters_init :: counters where
  "counters_init =
     \<lparr>per_day_per_club = Map.empty, pair_days = [], home_count = Map.empty,
      away_count = Map.empty\<rparr>"

text \<open>\<^verbatim>\<open>tuple(sorted((a, b)))\<close>.\<close>

definition sorted_pair :: "string \<Rightarrow> string \<Rightarrow> string \<times> string" where
  "sorted_pair a b = (if b < a then (b, a) else (a, b))"

text \<open>\<^verbatim>\<open>pair_days.setdefault(key, set()).add(j)\<close>.\<close>

definition pair_days_add ::
  "((string \<times> string) \<times> int list) list \<Rightarrow> string \<times> string \<Rightarrow> int
     \<Rightarrow> ((string \<times> string) \<times> int list) list" where
  "pair_days_add pd key j =
     (case map_of pd key of
        None \<Rightarrow> pd @ [(key, [j])]
      | Some days \<Rightarrow> AList.update key (List.insert j days) pd)"

definition count_step :: "'pot Match \<Rightarrow> counters \<Rightarrow> counters" where
  "count_step m st =
     (let h = id_club (club_home m); a = id_club (club_away m); j = journee m;
          p1 = (per_day_per_club st)((h, j) \<mapsto> dict_get (per_day_per_club st) (h, j) 0 + 1);
          p2 = p1((a, j) \<mapsto> dict_get p1 (a, j) 0 + 1)
      in \<lparr>per_day_per_club = p2,
          pair_days = pair_days_add (pair_days st) (sorted_pair h a) j,
          home_count = (home_count st)(h \<mapsto> dict_get (home_count st) h 0 + 1),
          away_count = (away_count st)(a \<mapsto> dict_get (away_count st) a 0 + 1)\<rparr>)"

definition count_matches :: "'pot Draw \<Rightarrow> counters" where
  "count_matches d = fold count_step (matches d) counters_init"

text \<open>Exactly one match per club and round.\<close>

definition check_one_match_per_day :: "'pot Draw \<Rightarrow> counters \<Rightarrow> diagnostic list" where
  "check_one_match_per_day d st =
     concat (map (\<lambda>club.
         concat (map (\<lambda>day.
             if dict_get (per_day_per_club st) (id_club club, day) 0 \<noteq> 1
             then [Club_matchs_a_la_journee (id_club club)
                     (dict_get (per_day_per_club st) (id_club club, day) 0) day]
             else [])
           [1..JOURNEES]))
       (get_all_clubs d))"

text \<open>At most one meeting per unordered pair.\<close>

definition check_pairs :: "counters \<Rightarrow> diagnostic list" where
  "check_pairs st =
     concat (map (\<lambda>((a, b), days).
         if int (length days) > 1 then [Paire_jouee_plusieurs_fois a b (sort days)] else [])
       (pair_days st))"

text \<open>Part d): the home and away counts of every club.\<close>

definition check_home_away_counts :: "'pot Draw \<Rightarrow> counters \<Rightarrow> diagnostic list" where
  "check_home_away_counts d st =
     concat (map (\<lambda>club.
         (if dict_get (home_count st) (id_club club) 0 \<noteq> HOME_MATCHES_PER_CLUB
          then [Club_domicile (id_club club) (dict_get (home_count st) (id_club club) 0)
                  HOME_MATCHES_PER_CLUB]
          else [])
         @ (if dict_get (away_count st) (id_club club) 0 \<noteq> AWAY_MATCHES_PER_CLUB
            then [Club_exterieur (id_club club) (dict_get (away_count st) (id_club club) 0)
                    AWAY_MATCHES_PER_CLUB]
            else []))
       (get_all_clubs d))"

definition check_internal_consistency :: "'pot Draw \<Rightarrow> diagnostic list" where
  "check_internal_consistency d =
     (let st = count_matches d
      in check_bounds_and_self_matches d
         @ check_expected_total d
         @ check_one_match_per_day d st
         @ check_pairs st
         @ check_home_away_counts d st)"

definition validate ::
  "('pot Draw \<Rightarrow> bool) DrawValidator \<Rightarrow> 'pot Draw
     \<Rightarrow> bool \<times> diagnostic list \<times> diagnostic list" where
  "validate V d =
     (let errors = check_internal_consistency d;
          (hard_ok, hard_violated) = verify_hard_constraints (validator_constraints V) d;
          errors = (if \<not> hard_ok then errors @ [Hard_constraints_violated hard_violated]
                    else errors);
          soft_violated = map name (filter (\<lambda>c. \<not> is_satisfied c d)
                            (get_soft_constraints (validator_constraints V)));
          warnings = (if soft_violated \<noteq> [] then [Soft_constraints_not_satisfied soft_violated]
                      else [])
      in (length errors = 0, errors, warnings))"

section \<open>Clubs as the constructor accepts them\<close>







subsection \<open>The two rules that read the pot\<close>








subsection \<open>The engine and the validator with exceptions\<close>







section \<open>The streak rule as the specification words it\<close>

text \<open>A list contains a run of \<open>v\<close> longer than \<open>limit\<close> when, for some length above the
  limit, that many copies of \<open>v\<close> stand next to each other in it. This definition is
  written from the specification, to be compared with the loop of the source.\<close>

definition spec_has_run_longer_than :: "'a \<Rightarrow> int \<Rightarrow> 'a list \<Rightarrow> bool" where
  "spec_has_run_longer_than v limit xs = (\<exists>n. int n > limit \<and> sublist (replicate n v) xs)"

section \<open>Example clubs and draws\<close>

text \<open>Concrete inputs on which the results below are evaluated. \<open>league_12\<close> is a
  reduced league of twelve clubs, three per pot: every club plays eight matches, one per
  round, four at home and four away, against two clubs of every pot, one at home and one
  away.\<close>

definition club_A1 :: "Chapeau Club" where
  "club_A1 = \<lparr>id_club = ''A1'', nom = ''Club A1'', pays = ''FRA'', chapeau = CHAPEAU_1\<rparr>"

definition club_A2 :: "Chapeau Club" where
  "club_A2 = \<lparr>id_club = ''A2'', nom = ''Club A2'', pays = ''ESP'', chapeau = CHAPEAU_1\<rparr>"

definition club_A3 :: "Chapeau Club" where
  "club_A3 = \<lparr>id_club = ''A3'', nom = ''Club A3'', pays = ''ENG'', chapeau = CHAPEAU_1\<rparr>"

definition club_B1 :: "Chapeau Club" where
  "club_B1 = \<lparr>id_club = ''B1'', nom = ''Club B1'', pays = ''GER'', chapeau = CHAPEAU_2\<rparr>"

definition club_B2 :: "Chapeau Club" where
  "club_B2 = \<lparr>id_club = ''B2'', nom = ''Club B2'', pays = ''ITA'', chapeau = CHAPEAU_2\<rparr>"

definition club_B3 :: "Chapeau Club" where
  "club_B3 = \<lparr>id_club = ''B3'', nom = ''Club B3'', pays = ''POR'', chapeau = CHAPEAU_2\<rparr>"

definition club_C1 :: "Chapeau Club" where
  "club_C1 = \<lparr>id_club = ''C1'', nom = ''Club C1'', pays = ''NED'', chapeau = CHAPEAU_3\<rparr>"

definition club_C2 :: "Chapeau Club" where
  "club_C2 = \<lparr>id_club = ''C2'', nom = ''Club C2'', pays = ''BEL'', chapeau = CHAPEAU_3\<rparr>"

definition club_C3 :: "Chapeau Club" where
  "club_C3 = \<lparr>id_club = ''C3'', nom = ''Club C3'', pays = ''SCO'', chapeau = CHAPEAU_3\<rparr>"

definition club_D1 :: "Chapeau Club" where
  "club_D1 = \<lparr>id_club = ''D1'', nom = ''Club D1'', pays = ''AUT'', chapeau = CHAPEAU_4\<rparr>"

definition club_D2 :: "Chapeau Club" where
  "club_D2 = \<lparr>id_club = ''D2'', nom = ''Club D2'', pays = ''SUI'', chapeau = CHAPEAU_4\<rparr>"

definition club_D3 :: "Chapeau Club" where
  "club_D3 = \<lparr>id_club = ''D3'', nom = ''Club D3'', pays = ''TUR'', chapeau = CHAPEAU_4\<rparr>"

text \<open>The record of a match, written short. Every match of the examples lies within
  the bounds of the constructor.\<close>

definition fixture :: "'pot Club \<Rightarrow> 'pot Club \<Rightarrow> int \<Rightarrow> 'pot Match" where
  "fixture h a j = \<lparr>club_home = h, club_away = a, journee = j\<rparr>"

definition league_12 :: "Chapeau Draw" where
  "league_12 =
     \<lparr>matches =
       [fixture club_A1 club_A2 1, fixture club_A3 club_B3 1, fixture club_B1 club_B2 1,
        fixture club_C1 club_C2 1, fixture club_C3 club_D3 1, fixture club_D1 club_D2 1,
        fixture club_A2 club_B2 2, fixture club_A3 club_A1 2, fixture club_B3 club_B1 2,
        fixture club_C2 club_D2 2, fixture club_C3 club_C1 2, fixture club_D3 club_D1 2,
        fixture club_A1 club_B1 3, fixture club_A2 club_A3 3, fixture club_B2 club_B3 3,
        fixture club_C1 club_D1 3, fixture club_C2 club_C3 3, fixture club_D2 club_D3 3,
        fixture club_B1 club_A3 4, fixture club_B2 club_A1 4, fixture club_B3 club_A2 4,
        fixture club_D1 club_C3 4, fixture club_D2 club_C1 4, fixture club_D3 club_C2 4,
        fixture club_A1 club_C1 5, fixture club_A2 club_C2 5, fixture club_A3 club_C3 5,
        fixture club_B1 club_D1 5, fixture club_B2 club_D2 5, fixture club_B3 club_D3 5,
        fixture club_C1 club_A3 6, fixture club_C2 club_A1 6, fixture club_C3 club_A2 6,
        fixture club_D1 club_B3 6, fixture club_D2 club_B1 6, fixture club_D3 club_B2 6,
        fixture club_A1 club_D1 7, fixture club_A2 club_D2 7, fixture club_A3 club_D3 7,
        fixture club_B1 club_C1 7, fixture club_B2 club_C2 7, fixture club_B3 club_C3 7,
        fixture club_C1 club_B3 8, fixture club_C2 club_B1 8, fixture club_C3 club_B2 8,
        fixture club_D1 club_A3 8, fixture club_D2 club_A1 8, fixture club_D3 club_A2 8],
      season = ''2025-26''\<rparr>"

definition club_PSG :: "Chapeau Club" where
  "club_PSG = \<lparr>id_club = ''PSG'', nom = ''Paris Saint-Germain'', pays = ''FRA'', chapeau = CHAPEAU_1\<rparr>"

definition club_OM :: "Chapeau Club" where
  "club_OM = \<lparr>id_club = ''OM'', nom = ''Olympique de Marseille'', pays = ''FRA'', chapeau = CHAPEAU_3\<rparr>"

definition club_RMA :: "Chapeau Club" where
  "club_RMA = \<lparr>id_club = ''RMA'', nom = ''Real Madrid'', pays = ''ESP'', chapeau = CHAPEAU_1\<rparr>"

definition draw_empty :: "Chapeau Draw" where
  "draw_empty = \<lparr>matches = [], season = ''2025-26''\<rparr>"

text \<open>One match between two clubs of the same country.\<close>

definition draw_derby :: "Chapeau Draw" where
  "draw_derby = \<lparr>matches = [fixture club_PSG club_OM 1], season = ''2025-26''\<rparr>"

definition club_FCB :: "Chapeau Club" where
  "club_FCB = \<lparr>id_club = ''FCB'', nom = ''FC Barcelona'', pays = ''ESP'', chapeau = CHAPEAU_1\<rparr>"

definition club_ATM :: "Chapeau Club" where
  "club_ATM = \<lparr>id_club = ''ATM'', nom = ''Atletico Madrid'', pays = ''ESP'', chapeau = CHAPEAU_2\<rparr>"

text \<open>One club meets three clubs of one foreign country.\<close>

definition draw_three_spanish :: "Chapeau Draw" where
  "draw_three_spanish =
     \<lparr>matches = [fixture club_PSG club_RMA 1, fixture club_FCB club_PSG 2,
                 fixture club_PSG club_ATM 3],
      season = ''2025-26''\<rparr>"

text \<open>A club that plays in no match of \<open>league_12\<close>.\<close>

definition club_absent :: "Chapeau Club" where
  "club_absent = \<lparr>id_club = ''ZZ9'', nom = ''Club ZZ9'', pays = ''FRA'', chapeau = CHAPEAU_1\<rparr>"




section \<open>Insertion into a draw\<close>

lemma match_in_iff:
  "match_in m ms \<longleftrightarrow>
     (\<exists>x\<in>set ms. id_club (club_home x) = id_club (club_home m)
        \<and> id_club (club_away x) = id_club (club_away m) \<and> journee x = journee m)"
  by (auto simp: match_in_def list_ex_iff match_eq_def club_eq_def)

lemma match_in_append: "match_in m (xs @ ys) \<longleftrightarrow> match_in m xs \<or> match_in m ys"
  by (simp add: match_in_def)

lemma well_constructed_iff:
  "well_constructed m \<longleftrightarrow>
     id_club (club_home m) \<noteq> id_club (club_away m) \<and> 1 \<le> journee m \<and> journee m \<le> 8"
  by (auto simp: well_constructed_def Match_init_def club_eq_def)

text \<open>
  Claim C7. \<open>add_match d m\<close> raises the duplicate error exactly when the draw already holds
  a match with the same home id, away id and round as \<open>m\<close>. When it raises, the draw is
  left as it was. When it does not, \<open>m\<close> is appended and the call succeeds: nothing but
  the duplicate test decides the outcome, so no rule of the rule set is consulted.
\<close>

theorem add_match_duplicate_iff:
  "(let dup = (\<exists>x\<in>set (matches d). id_club (club_home x) = id_club (club_home m)
                 \<and> id_club (club_away x) = id_club (club_away m) \<and> journee x = journee m)
    in (fst (add_match d m) = Inl (ValueError_duplicate m)) = dup
       \<and> ((\<exists>e. fst (add_match d m) = Inl e) = dup)
       \<and> (if dup then snd (add_match d m) = d
           else add_match d m = (Inr (), d\<lparr>matches := matches d @ [m]\<rparr>)))"
  unfolding Let_def match_in_iff [symmetric]
  by (simp add: add_match_def)

text \<open>The derby is inserted into the empty draw although the resulting draw breaks the
  same-country rule; inserting it a second time raises and changes nothing.\<close>

theorem add_match_duplicate_iff_witness:
  "add_match draw_empty (fixture club_PSG club_OM 1) = (Inr (), draw_derby)
   \<and> \<not> check_no_same_country_opponents draw_derby
   \<and> add_match draw_derby (fixture club_PSG club_OM 1)
       = (Inl (ValueError_duplicate (fixture club_PSG club_OM 1)), draw_derby)"
proof -
  have 1: "add_match draw_empty (fixture club_PSG club_OM 1) = (Inr (), draw_derby)"
    using add_match_duplicate_iff [of draw_empty "fixture club_PSG club_OM 1"]
    by (simp add: draw_empty_def draw_derby_def)
  have 2: "\<not> check_no_same_country_opponents draw_derby"
    by code_simp
  have "\<exists>x\<in>set (matches draw_derby).
          id_club (club_home x) = id_club (club_home (fixture club_PSG club_OM 1))
          \<and> id_club (club_away x) = id_club (club_away (fixture club_PSG club_OM 1))
          \<and> journee x = journee (fixture club_PSG club_OM 1)"
    by (simp add: draw_derby_def)
  then have 3: "add_match draw_derby (fixture club_PSG club_OM 1)
       = (Inl (ValueError_duplicate (fixture club_PSG club_OM 1)), draw_derby)"
    using add_match_duplicate_iff [of draw_derby "fixture club_PSG club_OM 1"]
    by (simp add: Let_def prod_eq_iff)
  from 1 2 3 show ?thesis by simp
qed

text \<open>
  Claim C9. For a well-constructed match \<open>m\<close>, \<open>implies_reverse_match m\<close> builds a match
  \<open>r\<close> with home and away swapped and the same round. \<open>r\<close> differs from \<open>m\<close> under the
  match identity, and reversing \<open>r\<close> gives \<open>m\<close> back. The function only builds a value:
  inserting \<open>m\<close> into a draw does not put \<open>r\<close> into it.
\<close>

theorem implies_reverse_match_involution:
  assumes "well_constructed m"
  shows "\<exists>r. implies_reverse_match m = Inr r
           \<and> \<not> match_eq r m \<and> \<not> match_eq m r
           \<and> journee r = journee m
           \<and> club_home r = club_away m \<and> club_away r = club_home m
           \<and> well_constructed r
           \<and> implies_reverse_match r = Inr m
           \<and> (\<exists>m'. implies_reverse_match r = Inr m' \<and> match_eq m' m)
           \<and> (\<forall>d. match_in r (matches (snd (add_match d m))) = match_in r (matches d))"
proof -
  from assms have ne: "id_club (club_home m) \<noteq> id_club (club_away m)"
    and j: "1 \<le> journee m" "journee m \<le> 8"
    by (simp_all add: well_constructed_iff)
  define r where "r = \<lparr>club_home = club_away m, club_away = club_home m, journee = journee m\<rparr>"
  have r: "implies_reverse_match m = Inr r"
    using ne j by (auto simp: implies_reverse_match_def Match_init_def club_eq_def r_def)
  have neq: "\<not> match_eq r m" "\<not> match_eq m r"
    using ne by (auto simp: match_eq_def club_eq_def r_def)
  have again: "implies_reverse_match r = Inr m"
    using ne j by (auto simp: implies_reverse_match_def Match_init_def club_eq_def r_def)
  have wc: "well_constructed r"
    using ne j by (simp add: well_constructed_iff r_def)
  have refl: "match_eq m m"
    by (simp add: match_eq_def club_eq_def)
  have stored: "match_in r (matches (snd (add_match d m))) = match_in r (matches d)" for d
    using neq by (simp add: add_match_def match_in_append) (simp add: match_in_def)
  show ?thesis
    using r neq again wc refl stored by (auto simp: r_def)
qed

theorem implies_reverse_match_involution_witness:
  "well_constructed (fixture club_PSG club_RMA 3)
   \<and> implies_reverse_match (fixture club_PSG club_RMA 3) = Inr (fixture club_RMA club_PSG 3)
   \<and> \<not> match_eq (fixture club_RMA club_PSG 3) (fixture club_PSG club_RMA 3)
   \<and> implies_reverse_match (fixture club_RMA club_PSG 3) = Inr (fixture club_PSG club_RMA 3)"
proof -
  have wc: "well_constructed (fixture club_PSG club_RMA 3)"
    by (simp add: well_constructed_iff fixture_def club_PSG_def club_RMA_def)
  have r: "implies_reverse_match (fixture club_PSG club_RMA 3) = Inr (fixture club_RMA club_PSG 3)"
    by (simp add: implies_reverse_match_def Match_init_def club_eq_def fixture_def
        club_PSG_def club_RMA_def)
  from implies_reverse_match_involution [OF wc] r wc show ?thesis
    by auto
qed

text \<open>The loop stops at the first element that duplicates a match present at its turn.\<close>

lemma add_matches_first_duplicate:
  assumes "k < length ms"
    and "match_in (ms ! k) (matches d @ take k ms)"
    and "\<forall>j<k. \<not> match_in (ms ! j) (matches d @ take j ms)"
  shows "add_matches d ms
           = (Inl (ValueError_duplicate (ms ! k)), d\<lparr>matches := matches d @ take k ms\<rparr>)"
  using assms
proof (induction ms arbitrary: d k)
  case Nil
  then show ?case by simp
next
  case (Cons m ms)
  show ?case
  proof (cases k)
    case 0
    with Cons.prems show ?thesis by (simp add: add_match_def)
  next
    case (Suc k')
    from Cons.prems(3) Suc have m: "\<not> match_in m (matches d)" by force
    let ?d = "d\<lparr>matches := matches d @ [m]\<rparr>"
    have 1: "k' < length ms" using Cons.prems(1) Suc by simp
    have 2: "match_in (ms ! k') (matches ?d @ take k' ms)"
      using Cons.prems(2) Suc by simp
    have 3: "\<forall>j<k'. \<not> match_in (ms ! j) (matches ?d @ take j ms)"
    proof (intro allI impI)
      fix j assume "j < k'"
      then have "Suc j < k" using Suc by simp
      with Cons.prems(3) have "\<not> match_in ((m # ms) ! Suc j) (matches d @ take (Suc j) (m # ms))"
        by blast
      then show "\<not> match_in (ms ! j) (matches ?d @ take j ms)" by simp
    qed
    from Cons.IH [OF 1 2 3] m Suc show ?thesis
      by (simp add: add_match_def)
  qed
qed

text \<open>
  Claim C10, as the source has it. \<open>add_matches\<close> is not atomic. When the element at
  position \<open>k\<close> of the list duplicates a match of the draw or an earlier element of the
  list, the call raises the duplicate error: it does so at the first such position, and
  the elements before that position stay in the draw. When \<open>k\<close> is that first position,
  which is the case where the loop gets as far as the element at \<open>k\<close>, the error is
  raised for this element, and the elements before it remain inserted.
\<close>

theorem add_matches_not_atomic:
  assumes "k < length ms"
    and "match_in (ms ! k) (matches d @ take k ms)"
  shows "(\<exists>j\<le>k. match_in (ms ! j) (matches d @ take j ms)
            \<and> (\<forall>i<j. \<not> match_in (ms ! i) (matches d @ take i ms))
            \<and> add_matches d ms
                = (Inl (ValueError_duplicate (ms ! j)), d\<lparr>matches := matches d @ take j ms\<rparr>))
         \<and> ((\<forall>j<k. \<not> match_in (ms ! j) (matches d @ take j ms)) \<longrightarrow>
              add_matches d ms
                = (Inl (ValueError_duplicate (ms ! k)), d\<lparr>matches := matches d @ take k ms\<rparr>))"
proof
  let ?dup = "\<lambda>i. match_in (ms ! i) (matches d @ take i ms)"
  define j where "j = (LEAST i. ?dup i)"
  have dup: "?dup j"
    unfolding j_def using assms(2) by (rule LeastI)
  have le: "j \<le> k"
    unfolding j_def using assms(2) by (rule Least_le)
  have first: "\<forall>i<j. \<not> ?dup i"
    unfolding j_def using not_less_Least by blast
  from le assms(1) have "j < length ms" by simp
  from add_matches_first_duplicate [OF this dup first] dup le first
  show "\<exists>j\<le>k. ?dup j \<and> (\<forall>i<j. \<not> ?dup i)
            \<and> add_matches d ms
                = (Inl (ValueError_duplicate (ms ! j)), d\<lparr>matches := matches d @ take j ms\<rparr>)"
    by blast
next
  show "(\<forall>j<k. \<not> match_in (ms ! j) (matches d @ take j ms)) \<longrightarrow>
      add_matches d ms
        = (Inl (ValueError_duplicate (ms ! k)), d\<lparr>matches := matches d @ take k ms\<rparr>)"
    using add_matches_first_duplicate [OF assms] by blast
qed

text \<open>The second element of the batch is already in the draw: the call raises, and the
  first element stays inserted while the third never is.\<close>

theorem add_matches_not_atomic_witness:
  "add_matches draw_derby
      [fixture club_PSG club_RMA 3, fixture club_PSG club_OM 1, fixture club_RMA club_OM 2]
    = (Inl (ValueError_duplicate (fixture club_PSG club_OM 1)),
       \<lparr>matches = [fixture club_PSG club_OM 1, fixture club_PSG club_RMA 3],
        season = ''2025-26''\<rparr>)"
proof -
  let ?ms = "[fixture club_PSG club_RMA 3, fixture club_PSG club_OM 1, fixture club_RMA club_OM 2]"
  have 1: "(1::nat) < length ?ms" by simp
  have 2: "match_in (?ms ! 1) (matches draw_derby @ take 1 ?ms)"
    by (simp add: match_in_def match_eq_def club_eq_def draw_derby_def)
  have 3: "\<forall>j<1::nat. \<not> match_in (?ms ! j) (matches draw_derby @ take j ?ms)"
    by (simp add: match_in_def match_eq_def club_eq_def draw_derby_def fixture_def)
  from add_matches_not_atomic [OF 1 2] 3 show ?thesis
    by (simp add: draw_derby_def)
qed

text \<open>
  Claim C10 as it is worded, for any position \<open>k\<close> that holds a duplicate, fails: in the
  batch below the element at position 3 repeats the one at position 2, but the call has
  already raised at position 1, and the element at position 2 was never inserted.
\<close>

theorem add_matches_later_duplicate_counterexample:
  "(3::nat) < length [fixture club_PSG club_OM 1, fixture club_PSG club_OM 1,
                      fixture club_PSG club_RMA 3, fixture club_PSG club_RMA 3]
   \<and> match_in
        ([fixture club_PSG club_OM 1, fixture club_PSG club_OM 1,
          fixture club_PSG club_RMA 3, fixture club_PSG club_RMA 3] ! 3)
        (matches draw_empty
         @ take 3 [fixture club_PSG club_OM 1, fixture club_PSG club_OM 1,
                   fixture club_PSG club_RMA 3, fixture club_PSG club_RMA 3])
   \<and> add_matches draw_empty
        [fixture club_PSG club_OM 1, fixture club_PSG club_OM 1,
         fixture club_PSG club_RMA 3, fixture club_PSG club_RMA 3]
       = (Inl (ValueError_duplicate (fixture club_PSG club_OM 1)), draw_derby)
   \<and> \<not> match_in
          ([fixture club_PSG club_OM 1, fixture club_PSG club_OM 1,
            fixture club_PSG club_RMA 3, fixture club_PSG club_RMA 3] ! 2)
          (matches (snd (add_matches draw_empty
             [fixture club_PSG club_OM 1, fixture club_PSG club_OM 1,
              fixture club_PSG club_RMA 3, fixture club_PSG club_RMA 3])))"
proof -
  let ?ms = "[fixture club_PSG club_OM 1, fixture club_PSG club_OM 1,
              fixture club_PSG club_RMA 3, fixture club_PSG club_RMA 3]"
  have 1: "match_in (?ms ! 3) (matches draw_empty @ take 3 ?ms)"
    by code_simp
  have 2: "add_matches draw_empty ?ms
      = (Inl (ValueError_duplicate (fixture club_PSG club_OM 1)), draw_derby)"
    by code_simp
  have 3: "\<not> match_in (?ms ! 2) (matches draw_derby)"
    by code_simp
  from 1 2 3 show ?thesis by simp
qed

section \<open>The constraint engine\<close>

lemma verify_loop_eq:
  "verify_loop cs d violated = violated @ map name (filter (\<lambda>c. \<not> is_satisfied c d) cs)"
  by (induction cs arbitrary: violated) simp_all

lemma verify_loop_logged_eq:
  "verify_loop_logged cs d (violated, evaluated)
     = (verify_loop cs d violated, evaluated @ map name cs)"
  by (induction cs arbitrary: violated evaluated) simp_all

lemma filter_not_empty_iff: "filter (\<lambda>c. \<not> P c) cs = [] \<longleftrightarrow> list_all P cs"
  by (induction cs) simp_all

lemma verify_hard_constraints_eq:
  "verify_hard_constraints U d
     = (list_all (\<lambda>c. is_satisfied c d) (get_hard_constraints U),
        map name (filter (\<lambda>c. \<not> is_satisfied c d) (get_hard_constraints U)))"
  by (simp add: verify_hard_constraints_def Let_def verify_loop_eq filter_not_empty_iff)

lemma verify_all_constraints_eq:
  "verify_all_constraints U d
     = (list_all (\<lambda>c. is_satisfied c d) (constraints U),
        map name (filter (\<lambda>c. \<not> is_satisfied c d) (constraints U)))"
  by (simp add: verify_all_constraints_def Let_def verify_loop_eq filter_not_empty_iff)

text \<open>
  Claim C3. Evaluating the whole rule set, or its hard subset, calls \<open>is_satisfied\<close> once
  on every rule of the list, in list order, whatever the earlier rules returned (the log
  of the calls is the list of all rule names). The names returned are those of the
  violated rules, in registration order, and the flag says whether there is none. The
  registration order is fixed when the rule set is built, before any draw is seen.
\<close>

theorem verify_all_constraints_registration_order:
  "verify_all_constraints U d
     = (list_all (\<lambda>c. is_satisfied c d) (constraints U),
        map name (filter (\<lambda>c. \<not> is_satisfied c d) (constraints U)))
   \<and> verify_hard_constraints U d
     = (list_all (\<lambda>c. is_satisfied c d) (get_hard_constraints U),
        map name (filter (\<lambda>c. \<not> is_satisfied c d) (get_hard_constraints U)))
   \<and> verify_loop_logged (constraints U) d ([], [])
     = (snd (verify_all_constraints U d), map name (constraints U))
   \<and> verify_loop_logged (get_hard_constraints U) d ([], [])
     = (snd (verify_hard_constraints U d), map name (get_hard_constraints U))
   \<and> map name (get_all_constraints UCLConstraints_init)
     = [''total_matches'', ''matches_per_club'', ''home_away_balance'',
        ''opponents_per_chapeau'', ''chapeau_home_away_distribution'',
        ''no_same_country_opponents'', ''max_two_from_same_foreign_country'',
        ''no_consecutive_matches'']
   \<and> map name (get_hard_constraints UCLConstraints_init)
     = [''total_matches'', ''matches_per_club'', ''home_away_balance'',
        ''opponents_per_chapeau'', ''chapeau_home_away_distribution'',
        ''no_same_country_opponents'', ''max_two_from_same_foreign_country'']"
proof -
  have logged: "verify_loop_logged cs d ([], []) = (verify_loop cs d [], map name cs)" for cs
    by (simp add: verify_loop_logged_eq)
  have all_names: "snd (verify_all_constraints U d) = verify_loop (constraints U) d []"
    by (simp add: verify_all_constraints_def Let_def)
  have hard_names: "snd (verify_hard_constraints U d) = verify_loop (get_hard_constraints U) d []"
    by (simp add: verify_hard_constraints_def Let_def)
  have registered: "map name (get_all_constraints UCLConstraints_init)
     = [''total_matches'', ''matches_per_club'', ''home_away_balance'',
        ''opponents_per_chapeau'', ''chapeau_home_away_distribution'',
        ''no_same_country_opponents'', ''max_two_from_same_foreign_country'',
        ''no_consecutive_matches'']"
    by (simp add: get_all_constraints_def UCLConstraints_init_def build_constraints_def)
  have registered_hard: "map name (get_hard_constraints UCLConstraints_init)
     = [''total_matches'', ''matches_per_club'', ''home_away_balance'',
        ''opponents_per_chapeau'', ''chapeau_home_away_distribution'',
        ''no_same_country_opponents'', ''max_two_from_same_foreign_country'']"
    by (simp add: get_hard_constraints_def UCLConstraints_init_def build_constraints_def)
  show ?thesis
    using verify_all_constraints_eq [of U d] verify_hard_constraints_eq [of U d]
      logged [of "constraints U"] logged [of "get_hard_constraints U"]
      all_names hard_names registered registered_hard
    by (simp only: simp_thms)
qed

text \<open>On the derby draw six of the eight rules fail; all six are reported, in
  registration order, and the two rules between and after them are still evaluated.\<close>

theorem verify_all_constraints_registration_order_witness:
  "verify_all_constraints UCLConstraints_init draw_derby
     = (False, [''total_matches'', ''matches_per_club'', ''home_away_balance'',
                ''opponents_per_chapeau'', ''chapeau_home_away_distribution'',
                ''no_same_country_opponents''])
   \<and> snd (verify_loop_logged (constraints UCLConstraints_init) draw_derby ([], []))
     = [''total_matches'', ''matches_per_club'', ''home_away_balance'',
        ''opponents_per_chapeau'', ''chapeau_home_away_distribution'',
        ''no_same_country_opponents'', ''max_two_from_same_foreign_country'',
        ''no_consecutive_matches'']"
proof -
  have "map name (filter (\<lambda>c. \<not> is_satisfied c draw_derby) (constraints UCLConstraints_init))
      = [''total_matches'', ''matches_per_club'', ''home_away_balance'',
         ''opponents_per_chapeau'', ''chapeau_home_away_distribution'',
         ''no_same_country_opponents'']"
    by code_simp
  moreover have "\<not> list_all (\<lambda>c. is_satisfied c draw_derby) (constraints UCLConstraints_init)"
    by code_simp
  ultimately show ?thesis
    using verify_all_constraints_registration_order [of UCLConstraints_init draw_derby]
    by (simp add: get_all_constraints_def)
qed

section \<open>The validator\<close>

lemma validate_eq:
  "validate V d =
     (check_internal_consistency d = []
        \<and> list_all (\<lambda>c. is_satisfied c d) (get_hard_constraints (validator_constraints V)),
      check_internal_consistency d
        @ (if list_all (\<lambda>c. is_satisfied c d) (get_hard_constraints (validator_constraints V))
           then []
           else [Hard_constraints_violated
                   (map name (filter (\<lambda>c. \<not> is_satisfied c d)
                      (get_hard_constraints (validator_constraints V))))]),
      (if list_all (\<lambda>c. is_satisfied c d) (get_soft_constraints (validator_constraints V))
       then []
       else [Soft_constraints_not_satisfied
               (map name (filter (\<lambda>c. \<not> is_satisfied c d)
                  (get_soft_constraints (validator_constraints V))))]))"
  by (simp add: validate_def verify_hard_constraints_eq Let_def filter_not_empty_iff)

lemma hard_constraints_init:
  "list_all (\<lambda>c. is_satisfied c d) (get_hard_constraints (validator_constraints DrawValidator_init))
   \<longleftrightarrow> check_total_matches d \<and> check_matches_per_club d \<and> check_home_away_balance d
       \<and> check_opponents_per_chapeau d \<and> check_chapeau_home_away_distribution d
       \<and> check_no_same_country_opponents d \<and> check_max_two_from_same_foreign_country d"
  by (simp add: DrawValidator_init_def UCLConstraints_init_def build_constraints_def
      get_hard_constraints_def is_satisfied_def)

lemma soft_constraints_init:
  "get_soft_constraints (validator_constraints DrawValidator_init)
     = [\<lparr>name = ''no_consecutive_matches'', constraint_type = UNARY,
         check_fn = check_no_consecutive_matches, severity = ''soft''\<rparr>]"
  by (simp add: DrawValidator_init_def UCLConstraints_init_def build_constraints_def
      get_soft_constraints_def)

text \<open>
  Claim C1. \<open>validate\<close> returns a triple of the verdict, the errors and the warnings. The
  verdict is true exactly when the structural layer returns no error and every hard rule
  is satisfied. The errors are the structural errors followed by at most one entry
  naming the violated hard rules; the soft rules contribute to the warnings only, so
  they have no part in the verdict. For the validator as it is built, the hard rules
  are the seven registered ones.
\<close>

theorem validate_overall_pass:
  "(fst (validate V d) \<longleftrightarrow>
      check_internal_consistency d = []
      \<and> list_all (\<lambda>c. is_satisfied c d) (get_hard_constraints (validator_constraints V)))
   \<and> fst (snd (validate V d))
       = check_internal_consistency d
         @ (if list_all (\<lambda>c. is_satisfied c d) (get_hard_constraints (validator_constraints V))
            then []
            else [Hard_constraints_violated
                    (map name (filter (\<lambda>c. \<not> is_satisfied c d)
                       (get_hard_constraints (validator_constraints V))))])
   \<and> snd (snd (validate V d))
       = (if list_all (\<lambda>c. is_satisfied c d) (get_soft_constraints (validator_constraints V))
          then []
          else [Soft_constraints_not_satisfied
                  (map name (filter (\<lambda>c. \<not> is_satisfied c d)
                     (get_soft_constraints (validator_constraints V))))])
   \<and> (fst (validate DrawValidator_init d) \<longleftrightarrow>
        check_internal_consistency d = []
        \<and> check_total_matches d \<and> check_matches_per_club d \<and> check_home_away_balance d
        \<and> check_opponents_per_chapeau d \<and> check_chapeau_home_away_distribution d
        \<and> check_no_same_country_opponents d \<and> check_max_two_from_same_foreign_country d)"
  unfolding hard_constraints_init [symmetric]
  by (simp add: validate_eq)

text \<open>The values of the checks on \<open>league_12\<close>, computed once.\<close>

lemma league_12_total: "\<not> check_total_matches league_12"
  by code_simp

lemma league_12_matches_per_club: "check_matches_per_club league_12"
  by code_simp

lemma league_12_home_away: "check_home_away_balance league_12"
  by code_simp

lemma league_12_opponents: "check_opponents_per_chapeau league_12"
  by code_simp

lemma league_12_distribution: "check_chapeau_home_away_distribution league_12"
  by code_simp

lemma league_12_same_country: "check_no_same_country_opponents league_12"
  by code_simp

lemma league_12_foreign: "check_max_two_from_same_foreign_country league_12"
  by code_simp

lemma league_12_consecutive: "\<not> check_no_consecutive_matches league_12"
  by code_simp

lemma league_12_structure: "check_internal_consistency league_12 = [Total_de_matchs 48 144]"
  by code_simp

lemmas league_12_checks =
  league_12_total league_12_matches_per_club league_12_home_away league_12_opponents
  league_12_distribution league_12_same_country league_12_foreign league_12_consecutive

lemma league_12_hard_violated:
  "map name (filter (\<lambda>c. \<not> is_satisfied c league_12)
      (get_hard_constraints (validator_constraints DrawValidator_init))) = [''total_matches'']"
  by (simp add: DrawValidator_init_def UCLConstraints_init_def build_constraints_def
      get_hard_constraints_def is_satisfied_def league_12_checks)

lemma league_12_soft_violated:
  "map name (filter (\<lambda>c. \<not> is_satisfied c league_12)
      (get_soft_constraints (validator_constraints DrawValidator_init)))
     = [''no_consecutive_matches'']"
  by (simp add: soft_constraints_init is_satisfied_def league_12_checks)

text \<open>\<open>league_12\<close> has 48 matches where 144 are expected: one structural error and one
  hard rule. Its soft rule is violated too, and shows up among the warnings only.\<close>

theorem validate_overall_pass_witness:
  "validate DrawValidator_init league_12
     = (False,
        [Total_de_matchs 48 144, Hard_constraints_violated [''total_matches'']],
        [Soft_constraints_not_satisfied [''no_consecutive_matches'']])"
proof -
  have hard: "\<not> list_all (\<lambda>c. is_satisfied c league_12)
      (get_hard_constraints (validator_constraints DrawValidator_init))"
    by (simp add: hard_constraints_init league_12_checks)
  have soft: "\<not> list_all (\<lambda>c. is_satisfied c league_12)
      (get_soft_constraints (validator_constraints DrawValidator_init))"
    by (simp add: soft_constraints_init is_satisfied_def league_12_checks)
  show ?thesis
    using validate_overall_pass [of DrawValidator_init league_12] hard soft
      league_12_structure league_12_hard_violated league_12_soft_violated
    by (simp add: prod_eq_iff)
qed

section \<open>The two home/away checks\<close>

lemma home_count_step:
  "dict_get (home_count (count_step m st)) k 0
     = dict_get (home_count st) k 0 + (if id_club (club_home m) = k then 1 else 0)"
  by (simp add: count_step_def Let_def dict_get_def)

lemma away_count_step:
  "dict_get (away_count (count_step m st)) k 0
     = dict_get (away_count st) k 0 + (if id_club (club_away m) = k then 1 else 0)"
  by (simp add: count_step_def Let_def dict_get_def)

lemma home_count_fold:
  "dict_get (home_count (fold count_step ms st)) k 0
     = dict_get (home_count st) k 0 + int (length (filter (\<lambda>m. id_club (club_home m) = k) ms))"
  by (induction ms arbitrary: st) (simp_all add: home_count_step)

lemma away_count_fold:
  "dict_get (away_count (fold count_step ms st)) k 0
     = dict_get (away_count st) k 0 + int (length (filter (\<lambda>m. id_club (club_away m) = k) ms))"
  by (induction ms arbitrary: st) (simp_all add: away_count_step)

lemma home_count_matches:
  "dict_get (home_count (count_matches d)) (id_club c) 0 = get_number_of_home_matches_for_club d c"
  unfolding count_matches_def home_count_fold
  by (simp add: counters_init_def dict_get_def
      get_number_of_home_matches_for_club_def get_home_matches_for_club_def club_eq_def)

lemma away_count_matches:
  "dict_get (away_count (count_matches d)) (id_club c) 0 = get_number_of_away_matches_for_club d c"
  unfolding count_matches_def away_count_fold
  by (simp add: counters_init_def dict_get_def
      get_number_of_away_matches_for_club_def get_away_matches_for_club_def club_eq_def)

lemma check_home_away_counts_empty_iff:
  "check_home_away_counts d (count_matches d) = [] \<longleftrightarrow>
     (\<forall>club\<in>set (get_all_clubs d).
        get_number_of_home_matches_for_club d club = HOME_MATCHES_PER_CLUB
        \<and> get_number_of_away_matches_for_club d club = AWAY_MATCHES_PER_CLUB)"
  by (auto simp: check_home_away_counts_def home_count_matches away_count_matches)

lemma check_home_away_balance_iff:
  "check_home_away_balance d \<longleftrightarrow>
     (\<forall>club\<in>set (get_all_clubs d).
        get_number_of_home_matches_for_club d club = HOME_MATCHES_PER_CLUB
        \<and> get_number_of_away_matches_for_club d club = AWAY_MATCHES_PER_CLUB)"
  by (auto simp: check_home_away_balance_def list_all_iff Let_def)

text \<open>
  Claim C4. Part d) of the structural layer, run on the counters the layer has filled,
  returns at least one error exactly when the hard rule \<open>home_away_balance\<close> is false:
  the two layers count the same matches for the same clubs.
\<close>

theorem home_away_layers_agree:
  "check_home_away_counts d (count_matches d) \<noteq> [] \<longleftrightarrow> \<not> check_home_away_balance d"
  by (simp only: check_home_away_counts_empty_iff check_home_away_balance_iff)

theorem home_away_layers_agree_witness:
  "check_home_away_balance league_12
   \<and> check_home_away_counts league_12 (count_matches league_12) = []
   \<and> \<not> check_home_away_balance draw_derby
   \<and> check_home_away_counts draw_derby (count_matches draw_derby) \<noteq> []"
proof -
  have "\<not> check_home_away_balance draw_derby"
    by code_simp
  then show ?thesis
    using home_away_layers_agree [of league_12] home_away_layers_agree [of draw_derby]
      league_12_home_away
    by simp
qed

section \<open>The foreign-country rule\<close>

lemma foreign_country_loop_iff:
  "foreign_country_loop club opps counts \<longleftrightarrow>
     (\<forall>country. country \<noteq> pays club
          \<and> filter (\<lambda>opp. pays opp = country) opps \<noteq> [] \<longrightarrow>
        dict_get counts country 0 + int (length (filter (\<lambda>opp. pays opp = country) opps))
          \<le> MAX_OPPONENTS_PER_FOREIGN_COUNTRY)"
  (is "_ = (\<forall>country. ?R opps counts country)")
proof (induction opps arbitrary: counts)
  case Nil
  then show ?case by simp
next
  case (Cons opp opps)
  show ?case
  proof (cases "pays opp = pays club")
    case True
    have "?R (opp # opps) counts country = ?R opps counts country" for country
      using True by auto
    then show ?thesis
      using True Cons.IH [of counts] by simp
  next
    case False
    let ?p = "pays opp"
    let ?counts = "counts(?p \<mapsto> dict_get counts ?p 0 + 1)"
    have get_p: "dict_get ?counts ?p 0 = dict_get counts ?p 0 + 1"
      by (simp add: dict_get_def)
    show ?thesis
    proof (cases "dict_get counts ?p 0 + 1 > MAX_OPPONENTS_PER_FOREIGN_COUNTRY")
      case True
      have "\<not> foreign_country_loop club (opp # opps) counts"
        using False True by (simp add: Let_def get_p)
      moreover have "\<not> ?R (opp # opps) counts ?p"
        using True False by simp
      ultimately show ?thesis
        by blast
    next
      case small: False
      have "foreign_country_loop club (opp # opps) counts
          = foreign_country_loop club opps ?counts"
        using False small by (simp add: Let_def get_p)
      also have "\<dots> \<longleftrightarrow> (\<forall>country. ?R opps ?counts country)"
        by (rule Cons.IH)
      also have "\<dots> \<longleftrightarrow> (\<forall>country. ?R (opp # opps) counts country)"
      proof (intro iff_allI)
        fix country
        show "?R opps ?counts country \<longleftrightarrow> ?R (opp # opps) counts country"
        proof (cases "country = ?p")
          case True
          show ?thesis
          proof (cases "filter (\<lambda>opp. pays opp = ?p) opps = []")
            case True
            with \<open>country = ?p\<close> small False show ?thesis
              by (simp add: dict_get_def add.assoc)
          next
            case False
            with \<open>country = ?p\<close> show ?thesis
              by (simp add: dict_get_def add.assoc)
          qed
        next
          case False
          then have "pays opp \<noteq> country" by simp
          then show ?thesis
            using False by (simp add: dict_get_def)
        qed
      qed
      finally show ?thesis .
    qed
  qed
qed

lemma foreign_country_loop_empty_iff:
  "foreign_country_loop club opps Map.empty \<longleftrightarrow>
     (\<forall>country. country \<noteq> pays club \<longrightarrow>
        int (length (filter (\<lambda>opp. pays opp = country) opps))
          \<le> MAX_OPPONENTS_PER_FOREIGN_COUNTRY)"
proof -
  have "0 \<le> MAX_OPPONENTS_PER_FOREIGN_COUNTRY"
    by (simp add: MAX_OPPONENTS_PER_FOREIGN_COUNTRY_def)
  then show ?thesis
    unfolding foreign_country_loop_iff
    by (auto simp: dict_get_def)
qed

lemma foreign_country_loop_skips_own_country:
  "foreign_country_loop club opps counts
     = foreign_country_loop club (filter (\<lambda>opp. pays opp \<noteq> pays club) opps) counts"
  by (induction opps arbitrary: counts) (simp_all add: Let_def)

lemma set_add_ids:
  "distinct (map id_club s) \<Longrightarrow> distinct (map id_club (set_add s c))"
  by (auto simp: set_add_def list_ex_iff club_eq_def)

lemma fold_opponents_distinct:
  "distinct (map id_club acc) \<Longrightarrow>
   distinct (map id_club (fold (\<lambda>m opponents.
                case opponent_of m c of
                  Some opponent \<Rightarrow> set_add opponents opponent
                | None \<Rightarrow> opponents) ms acc))"
  by (induction ms arbitrary: acc) (auto simp: set_add_ids split: option.splits)

lemma distinct_map_sort_key:
  "distinct (map f (sort_key g xs)) = distinct (map f xs)"
proof -
  have "distinct (map f ys) \<longleftrightarrow> card (f ` set ys) = length ys" for ys
    by (metis card_distinct distinct_card length_map set_map)
  then show ?thesis
    by simp
qed

lemma get_opponents_distinct: "distinct (map id_club (get_opponents_for_club d c))"
  unfolding get_opponents_for_club_def distinct_map_sort_key
  by (rule fold_opponents_distinct) simp

text \<open>
  Claim C5. The foreign-country rule holds on a draw exactly when, for every club of the
  draw and every country other than the club's own, the club's opponents from that
  country (the opponents are distinct: no two share an id) number at most the configured
  ceiling, which is 2. Opponents of the club's own country are skipped by the loop:
  removing them from the list it runs over changes nothing.
\<close>

theorem foreign_country_rule_iff:
  "(check_max_two_from_same_foreign_country d \<longleftrightarrow>
      (\<forall>club\<in>set (get_all_clubs d). \<forall>country. country \<noteq> pays club \<longrightarrow>
         int (length (filter (\<lambda>opp. pays opp = country) (get_opponents_for_club d club)))
           \<le> MAX_OPPONENTS_PER_FOREIGN_COUNTRY))
   \<and> MAX_OPPONENTS_PER_FOREIGN_COUNTRY = 2
   \<and> distinct (map id_club (get_opponents_for_club d club))
   \<and> foreign_country_loop club (get_opponents_for_club d club) counts
       = foreign_country_loop club
           (filter (\<lambda>opp. pays opp \<noteq> pays club) (get_opponents_for_club d club)) counts"
proof -
  have "check_max_two_from_same_foreign_country d \<longleftrightarrow>
      (\<forall>club\<in>set (get_all_clubs d). \<forall>country. country \<noteq> pays club \<longrightarrow>
         int (length (filter (\<lambda>opp. pays opp = country) (get_opponents_for_club d club)))
           \<le> MAX_OPPONENTS_PER_FOREIGN_COUNTRY)"
    by (simp add: check_max_two_from_same_foreign_country_def list_all_iff
        foreign_country_loop_empty_iff)
  moreover have "MAX_OPPONENTS_PER_FOREIGN_COUNTRY = 2"
    by (simp add: MAX_OPPONENTS_PER_FOREIGN_COUNTRY_def)
  moreover note get_opponents_distinct [of d club]
    foreign_country_loop_skips_own_country [of club "get_opponents_for_club d club" counts]
  ultimately show ?thesis by blast
qed

text \<open>In \<open>league_12\<close> the rule holds, so a club of it has at most two Spanish opponents.
  In \<open>draw_three_spanish\<close> the rule fails, so some club has more than two opponents
  from one foreign country.\<close>

theorem foreign_country_rule_iff_witness:
  "check_max_two_from_same_foreign_country league_12
   \<and> int (length (filter (\<lambda>opp. pays opp = ''ESP'') (get_opponents_for_club league_12 club_A1)))
       \<le> 2
   \<and> \<not> check_max_two_from_same_foreign_country draw_three_spanish
   \<and> (\<exists>club\<in>set (get_all_clubs draw_three_spanish). \<exists>country. country \<noteq> pays club
         \<and> \<not> int (length (filter (\<lambda>opp. pays opp = country)
                  (get_opponents_for_club draw_three_spanish club))) \<le> 2)"
proof -
  have member: "club_A1 \<in> set (get_all_clubs league_12)"
    by code_simp
  have own: "''ESP'' \<noteq> pays club_A1"
    by (simp add: club_A1_def)
  have fails: "\<not> check_max_two_from_same_foreign_country draw_three_spanish"
    by code_simp
  have 1: "int (length (filter (\<lambda>opp. pays opp = ''ESP'')
      (get_opponents_for_club league_12 club_A1))) \<le> 2"
    using foreign_country_rule_iff [of league_12 club_A1 Map.empty] league_12_foreign member own
    by auto
  have 2: "\<exists>club\<in>set (get_all_clubs draw_three_spanish). \<exists>country. country \<noteq> pays club
         \<and> \<not> int (length (filter (\<lambda>opp. pays opp = country)
                  (get_opponents_for_club draw_three_spanish club))) \<le> 2"
    using foreign_country_rule_iff [of draw_three_spanish club_A1 Map.empty] fails
    by auto
  from league_12_foreign 1 fails 2 show ?thesis by simp
qed

section \<open>The streak rule\<close>

lemma prefix_replicate_block:
  "w \<noteq> v \<Longrightarrow> prefix (replicate n v) (replicate k v @ w # ys) \<longleftrightarrow> n \<le> k"
proof (induction k arbitrary: n)
  case 0
  then show ?case by (cases n) simp_all
next
  case (Suc k)
  then show ?case by (cases n) simp_all
qed

lemma sublist_replicate_block:
  "w \<noteq> v \<Longrightarrow> 0 < n \<Longrightarrow>
   sublist (replicate n v) (replicate k v @ w # ys) \<longleftrightarrow> n \<le> k \<or> sublist (replicate n v) ys"
proof (induction k)
  case 0
  then have "\<not> prefix (replicate n v) (w # ys)"
    by (cases n) simp_all
  with 0 show ?case
    by (simp add: sublist_Cons_right)
next
  case (Suc k)
  have "prefix (replicate n v) (replicate (Suc k) v @ w # ys) \<longleftrightarrow> n \<le> Suc k"
    using Suc.prems(1) by (rule prefix_replicate_block)
  then have "sublist (replicate n v) (replicate (Suc k) v @ w # ys)
      \<longleftrightarrow> n \<le> Suc k \<or> sublist (replicate n v) (replicate k v @ w # ys)"
    by (simp add: sublist_Cons_right)
  with Suc show ?case by auto
qed

lemma spec_has_run_iff:
  assumes "0 \<le> limit"
  shows "spec_has_run_longer_than v limit xs \<longleftrightarrow> sublist (replicate (Suc (nat limit)) v) xs"
proof
  assume "spec_has_run_longer_than v limit xs"
  then obtain n where n: "int n > limit" and run: "sublist (replicate n v) xs"
    by (auto simp: spec_has_run_longer_than_def)
  from n assms have "Suc (nat limit) \<le> n" by linarith
  then have "replicate n v = replicate (Suc (nat limit)) v @ replicate (n - Suc (nat limit)) v"
    by (metis le_add_diff_inverse replicate_add)
  then have "sublist (replicate (Suc (nat limit)) v) (replicate n v)"
    by (metis sublist_append_rightI)
  then show "sublist (replicate (Suc (nat limit)) v) xs"
    using run by (rule sublist_order.order.trans)
next
  assume "sublist (replicate (Suc (nat limit)) v) xs"
  moreover have "int (Suc (nat limit)) > limit" using assms by simp
  ultimately show "spec_has_run_longer_than v limit xs"
    unfolding spec_has_run_longer_than_def by blast
qed

text \<open>The loop invariant: the counters are the lengths of the runs the sequence read so
  far ends with.\<close>

lemma consecutive_loop_iff:
  assumes "set seq \<subseteq> {CHR ''H'', CHR ''A''}"
    and "0 \<le> ch" "ch \<le> MAX_CONSECUTIVE_HOME_MATCHES"
    and "0 \<le> ca" "ca \<le> MAX_CONSECUTIVE_AWAY_MATCHES"
  shows "consecutive_loop seq ch ca \<longleftrightarrow>
     \<not> sublist (replicate (Suc (nat MAX_CONSECUTIVE_HOME_MATCHES)) (CHR ''H''))
          (replicate (nat ch) (CHR ''H'') @ seq)
     \<and> \<not> sublist (replicate (Suc (nat MAX_CONSECUTIVE_AWAY_MATCHES)) (CHR ''A''))
          (replicate (nat ca) (CHR ''A'') @ seq)"
  using assms
proof (induction seq arbitrary: ch ca)
  case Nil
  have "\<not> sublist (replicate (Suc (nat MAX_CONSECUTIVE_HOME_MATCHES)) (CHR ''H''))
          (replicate (nat ch) (CHR ''H''))"
    using Nil.prems by (auto dest!: sublist_length_le)
  moreover have "\<not> sublist (replicate (Suc (nat MAX_CONSECUTIVE_AWAY_MATCHES)) (CHR ''A''))
          (replicate (nat ca) (CHR ''A''))"
    using Nil.prems by (auto dest!: sublist_length_le)
  ultimately show ?case by simp
next
  case (Cons venue rest)
  let ?H = "CHR ''H''" and ?A = "CHR ''A''"
  let ?mh = "Suc (nat MAX_CONSECUTIVE_HOME_MATCHES)"
  let ?ma = "Suc (nat MAX_CONSECUTIVE_AWAY_MATCHES)"
  from Cons.prems(1) have rest: "set rest \<subseteq> {?H, ?A}" and venue: "venue = ?H \<or> venue = ?A"
    by auto
  have ne: "?H \<noteq> ?A" by simp
  from venue show ?case
  proof
    assume v: "venue = ?H"
    have away: "sublist (replicate ?ma ?A) (replicate (nat ca) ?A @ ?H # rest)
        \<longleftrightarrow> sublist (replicate ?ma ?A) rest"
      using sublist_replicate_block [of ?H ?A ?ma "nat ca" rest] Cons.prems(4,5) by auto
    have home: "replicate (nat ch) ?H @ ?H # rest = replicate (nat (ch + 1)) ?H @ rest"
      using Cons.prems(2) by (simp add: nat_add_distrib replicate_app_Cons_same)
    show ?thesis
    proof (cases "ch + 1 > MAX_CONSECUTIVE_HOME_MATCHES")
      case True
      with Cons.prems(2,3) have "nat (ch + 1) = ?mh" by linarith
      then have "sublist (replicate ?mh ?H) (replicate (nat ch) ?H @ ?H # rest)"
        unfolding home by (metis sublist_append_rightI)
      moreover have "\<not> consecutive_loop (venue # rest) ch ca"
        using v True by simp
      ultimately show ?thesis unfolding v by blast
    next
      case False
      have zero: "(0::int) \<le> MAX_CONSECUTIVE_AWAY_MATCHES"
        using Cons.prems(4,5) by simp
      have step: "consecutive_loop (?H # rest) ch ca = consecutive_loop rest (ch + 1) 0"
        using False zero by simp
      have ih: "consecutive_loop rest (ch + 1) 0 \<longleftrightarrow>
          \<not> sublist (replicate ?mh ?H) (replicate (nat (ch + 1)) ?H @ rest)
          \<and> \<not> sublist (replicate ?ma ?A) (replicate (nat 0) ?A @ rest)"
        using False Cons.prems(2) zero by (intro Cons.IH rest) simp_all
      have nil: "replicate (nat 0) ?A @ rest = rest"
        by simp
      show ?thesis
        unfolding v step ih home away nil ..
    qed
  next
    assume v: "venue = ?A"
    have home: "sublist (replicate ?mh ?H) (replicate (nat ch) ?H @ ?A # rest)
        \<longleftrightarrow> sublist (replicate ?mh ?H) rest"
      using sublist_replicate_block [of ?A ?H ?mh "nat ch" rest] Cons.prems(2,3) by auto
    have away: "replicate (nat ca) ?A @ ?A # rest = replicate (nat (ca + 1)) ?A @ rest"
      using Cons.prems(4) by (simp add: nat_add_distrib replicate_app_Cons_same)
    show ?thesis
    proof (cases "ca + 1 > MAX_CONSECUTIVE_AWAY_MATCHES")
      case True
      with Cons.prems(4,5) have "nat (ca + 1) = ?ma" by linarith
      then have "sublist (replicate ?ma ?A) (replicate (nat ca) ?A @ ?A # rest)"
        unfolding away by (metis sublist_append_rightI)
      moreover have "\<not> consecutive_loop (venue # rest) ch ca"
        using v True by simp
      ultimately show ?thesis unfolding v by blast
    next
      case False
      have zero: "(0::int) \<le> MAX_CONSECUTIVE_HOME_MATCHES"
        using Cons.prems(2,3) by simp
      have step: "consecutive_loop (?A # rest) ch ca = consecutive_loop rest 0 (ca + 1)"
        using False zero by simp
      have ih: "consecutive_loop rest 0 (ca + 1) \<longleftrightarrow>
          \<not> sublist (replicate ?mh ?H) (replicate (nat 0) ?H @ rest)
          \<and> \<not> sublist (replicate ?ma ?A) (replicate (nat (ca + 1)) ?A @ rest)"
        using False Cons.prems(4) zero by (intro Cons.IH rest) simp_all
      have nil: "replicate (nat 0) ?H @ rest = rest"
        by simp
      show ?thesis
        unfolding v step ih home away nil ..
    qed
  qed
qed

lemma venue_sequence_alphabet: "set (venue_sequence d club) \<subseteq> {CHR ''H'', CHR ''A''}"
  by (auto simp: venue_sequence_def)

lemma consecutive_loop_spec:
  "consecutive_loop (venue_sequence d club) 0 0 \<longleftrightarrow>
     \<not> spec_has_run_longer_than (CHR ''H'') MAX_CONSECUTIVE_HOME_MATCHES (venue_sequence d club)
     \<and> \<not> spec_has_run_longer_than (CHR ''A'') MAX_CONSECUTIVE_AWAY_MATCHES (venue_sequence d club)"
proof -
  have limits: "0 \<le> MAX_CONSECUTIVE_HOME_MATCHES" "0 \<le> MAX_CONSECUTIVE_AWAY_MATCHES"
    by (simp_all add: MAX_CONSECUTIVE_HOME_MATCHES_def MAX_CONSECUTIVE_AWAY_MATCHES_def)
  show ?thesis
    using consecutive_loop_iff [OF venue_sequence_alphabet [of d club], of 0 0] limits
    by (simp add: spec_has_run_iff)
qed

text \<open>
  Claim C6. The soft streak rule holds on a draw exactly when, for every club of the
  draw, the home/away sequence of the club's matches sorted by round contains no run of
  home matches longer than the configured home maximum and no run of away matches
  longer than the configured away maximum.
\<close>

theorem no_consecutive_matches_iff:
  "(check_no_consecutive_matches d \<longleftrightarrow>
      (\<forall>club\<in>set (get_all_clubs d).
         \<not> spec_has_run_longer_than (CHR ''H'') MAX_CONSECUTIVE_HOME_MATCHES
             (venue_sequence d club)
         \<and> \<not> spec_has_run_longer_than (CHR ''A'') MAX_CONSECUTIVE_AWAY_MATCHES
               (venue_sequence d club)))
   \<and> venue_sequence d club
       = map (\<lambda>m. if id_club (club_home m) = id_club club then CHR ''H'' else CHR ''A'')
           (sort_key journee (get_matches_for_club d club))
   \<and> sorted (map journee (sort_key journee (get_matches_for_club d club)))
   \<and> set (sort_key journee (get_matches_for_club d club)) = set (get_matches_for_club d club)
   \<and> length (venue_sequence d club) = length (get_matches_for_club d club)"
proof -
  have "check_no_consecutive_matches d \<longleftrightarrow>
      (\<forall>club\<in>set (get_all_clubs d).
         \<not> spec_has_run_longer_than (CHR ''H'') MAX_CONSECUTIVE_HOME_MATCHES
             (venue_sequence d club)
         \<and> \<not> spec_has_run_longer_than (CHR ''A'') MAX_CONSECUTIVE_AWAY_MATCHES
               (venue_sequence d club))"
    by (simp add: check_no_consecutive_matches_def list_all_iff consecutive_loop_spec)
  then show ?thesis
    by (simp add: venue_sequence_def club_eq_def)
qed

text \<open>The sequence of \<open>club_B2\<close> in \<open>league_12\<close> has three home matches in a row, so the rule
  fails there; in the derby draw nobody plays twice and the rule holds.\<close>

theorem no_consecutive_matches_iff_witness:
  "\<not> check_no_consecutive_matches league_12
   \<and> venue_sequence league_12 club_B2 = ''AAHHHAHA''
   \<and> (\<exists>club\<in>set (get_all_clubs league_12).
         spec_has_run_longer_than (CHR ''H'') MAX_CONSECUTIVE_HOME_MATCHES
           (venue_sequence league_12 club)
         \<or> spec_has_run_longer_than (CHR ''A'') MAX_CONSECUTIVE_AWAY_MATCHES
             (venue_sequence league_12 club))
   \<and> check_no_consecutive_matches draw_derby
   \<and> \<not> spec_has_run_longer_than (CHR ''H'') MAX_CONSECUTIVE_HOME_MATCHES
         (venue_sequence draw_derby club_PSG)"
proof -
  have seq: "venue_sequence league_12 club_B2 = ''AAHHHAHA''"
    by code_simp
  have holds: "check_no_consecutive_matches draw_derby"
    by code_simp
  have member: "club_PSG \<in> set (get_all_clubs draw_derby)"
    by code_simp
  have 1: "\<exists>club\<in>set (get_all_clubs league_12).
         spec_has_run_longer_than (CHR ''H'') MAX_CONSECUTIVE_HOME_MATCHES
           (venue_sequence league_12 club)
         \<or> spec_has_run_longer_than (CHR ''A'') MAX_CONSECUTIVE_AWAY_MATCHES
             (venue_sequence league_12 club)"
    using no_consecutive_matches_iff [of league_12 club_B2] league_12_consecutive
    by auto
  have 2: "\<not> spec_has_run_longer_than (CHR ''H'') MAX_CONSECUTIVE_HOME_MATCHES
         (venue_sequence draw_derby club_PSG)"
    using no_consecutive_matches_iff [of draw_derby club_PSG] holds member
    by auto
  from league_12_consecutive seq 1 holds 2 show ?thesis by simp
qed

section \<open>The clubs the rules examine\<close>

lemma set_add_id_set: "id_club ` set (set_add s c) = insert (id_club c) (id_club ` set s)"
proof (cases "list_ex (\<lambda>x. club_eq x c) s")
  case True
  then obtain x where "x \<in> set s" "id_club x = id_club c"
    by (auto simp: list_ex_iff club_eq_def)
  then have "id_club c \<in> id_club ` set s"
    by (metis imageI)
  with True show ?thesis
    by (auto simp: set_add_def)
next
  case False
  then show ?thesis
    by (simp add: set_add_def)
qed

lemma fold_all_clubs_ids:
  "id_club ` set (fold (\<lambda>m clubs. set_add (set_add clubs (club_home m)) (club_away m)) ms acc)
     = id_club ` set acc \<union> id_club ` (club_home ` set ms \<union> club_away ` set ms)"
  by (induction ms arbitrary: acc) (auto simp: set_add_id_set)

lemma get_all_clubs_ids:
  "id_club ` set (get_all_clubs d)
     = id_club ` (club_home ` set (matches d) \<union> club_away ` set (matches d))"
  by (simp add: get_all_clubs_def fold_all_clubs_ids)

lemma number_of_matches_nonzero_iff:
  "get_number_of_matches_for_club d c \<noteq> 0 \<longleftrightarrow>
     id_club c \<in> id_club ` (club_home ` set (matches d) \<union> club_away ` set (matches d))"
  by (auto simp: get_number_of_matches_for_club_def get_matches_for_club_def involves_club_def
      club_eq_def filter_empty_conv)

lemma examined_iff_plays:
  "(\<exists>x\<in>set (get_all_clubs d). id_club x = id_club c)
     \<longleftrightarrow> get_number_of_matches_for_club d c \<noteq> 0"
  unfolding number_of_matches_nonzero_iff get_all_clubs_ids [symmetric]
  by (metis (no_types, lifting) image_iff)

text \<open>A test that looks at a club through its id only holds for the clubs of the draw
  exactly when it holds for every club that plays.\<close>

lemma list_all_get_all_clubs:
  assumes "\<And>c c'. id_club c = id_club c' \<Longrightarrow> P c = P c'"
  shows "list_all P (get_all_clubs d)
     \<longleftrightarrow> (\<forall>c. get_number_of_matches_for_club d c \<noteq> 0 \<longrightarrow> P c)"
proof
  assume all: "list_all P (get_all_clubs d)"
  show "\<forall>c. get_number_of_matches_for_club d c \<noteq> 0 \<longrightarrow> P c"
  proof (intro allI impI)
    fix c assume "get_number_of_matches_for_club d c \<noteq> 0"
    then obtain x where "x \<in> set (get_all_clubs d)" "id_club x = id_club c"
      using examined_iff_plays [of d c] by blast
    with all assms [of x c] show "P c"
      by (simp add: list_all_iff)
  qed
next
  assume plays: "\<forall>c. get_number_of_matches_for_club d c \<noteq> 0 \<longrightarrow> P c"
  show "list_all P (get_all_clubs d)"
    unfolding list_all_iff
  proof
    fix x assume "x \<in> set (get_all_clubs d)"
    then have "get_number_of_matches_for_club d x \<noteq> 0"
      using examined_iff_plays [of d x] by blast
    with plays show "P x" by blast
  qed
qed

lemma get_matches_for_club_cong:
  "id_club c = id_club c' \<Longrightarrow> get_matches_for_club d c = get_matches_for_club d c'"
  by (simp add: get_matches_for_club_def involves_club_def club_eq_def)

lemma get_home_matches_for_club_cong:
  "id_club c = id_club c' \<Longrightarrow> get_home_matches_for_club d c = get_home_matches_for_club d c'"
  by (simp add: get_home_matches_for_club_def club_eq_def)

lemma get_away_matches_for_club_cong:
  "id_club c = id_club c' \<Longrightarrow> get_away_matches_for_club d c = get_away_matches_for_club d c'"
  by (simp add: get_away_matches_for_club_def club_eq_def)

lemma opponent_of_cong:
  "id_club c = id_club c' \<Longrightarrow> opponent_of m c = opponent_of m c'"
  by (simp add: opponent_of_def club_eq_def)

lemma get_opponents_for_club_cong:
  "id_club c = id_club c' \<Longrightarrow> get_opponents_for_club d c = get_opponents_for_club d c'"
  by (simp add: get_opponents_for_club_def get_matches_for_club_cong [of c c']
      opponent_of_cong [of c c'])

text \<open>
  Claim C2, as the source has it. The draw keeps no list of clubs: rules 2 to 5 examine
  the clubs found in its matches. So each of these rules holds exactly when every club
  that plays at least one match passes the rule's test, and a club that plays no match
  is not among the clubs examined: it cannot make any of the four rules fail.
\<close>

theorem rules_examine_playing_clubs:
  "(check_matches_per_club d \<longleftrightarrow>
      (\<forall>club. get_number_of_matches_for_club d club \<noteq> 0 \<longrightarrow>
         get_number_of_matches_for_club d club = MATCHES_PER_CLUB))
   \<and> (check_home_away_balance d \<longleftrightarrow>
      (\<forall>club. get_number_of_matches_for_club d club \<noteq> 0 \<longrightarrow>
         get_number_of_home_matches_for_club d club = HOME_MATCHES_PER_CLUB
         \<and> get_number_of_away_matches_for_club d club = AWAY_MATCHES_PER_CLUB))
   \<and> (check_opponents_per_chapeau d \<longleftrightarrow>
      (\<forall>club. get_number_of_matches_for_club d club \<noteq> 0 \<longrightarrow>
         list_all (\<lambda>(ch, expected_count).
             dict_get (opponents_by_chapeau d club) ch 0 = expected_count)
           OPPONENTS_PER_CHAPEAU))
   \<and> (check_chapeau_home_away_distribution d \<longleftrightarrow>
      (\<forall>club. get_number_of_matches_for_club d club \<noteq> 0 \<longrightarrow>
         list_all (\<lambda>(ch, (expected_home, expected_away)).
             int (length (filter (\<lambda>m. chapeau_value (chapeau (club_away m)) = ch)
                    (get_home_matches_for_club d club))) = expected_home
             \<and> int (length (filter (\<lambda>m. chapeau_value (chapeau (club_home m)) = ch)
                      (get_away_matches_for_club d club))) = expected_away)
           DISTRIBUTION_CHAPEAUX))
   \<and> (get_number_of_matches_for_club d c = 0 \<longrightarrow>
        (\<forall>x\<in>set (get_all_clubs d). id_club x \<noteq> id_club c))"
proof -
  have 2: "check_matches_per_club d \<longleftrightarrow>
      (\<forall>club. get_number_of_matches_for_club d club \<noteq> 0 \<longrightarrow>
         get_number_of_matches_for_club d club = MATCHES_PER_CLUB)"
  proof -
    let ?P = "\<lambda>club. \<not> get_number_of_matches_for_club d club \<noteq> MATCHES_PER_CLUB"
    have "?P c = ?P c'" if "id_club c = id_club c'" for c c'
      using get_matches_for_club_cong [OF that, of d]
      by (simp add: get_number_of_matches_for_club_def)
    from list_all_get_all_clubs [of ?P d, OF this] show ?thesis
      by (simp add: check_matches_per_club_def)
  qed
  have 3: "check_home_away_balance d \<longleftrightarrow>
      (\<forall>club. get_number_of_matches_for_club d club \<noteq> 0 \<longrightarrow>
         get_number_of_home_matches_for_club d club = HOME_MATCHES_PER_CLUB
         \<and> get_number_of_away_matches_for_club d club = AWAY_MATCHES_PER_CLUB)"
  proof -
    let ?P = "\<lambda>club. get_number_of_home_matches_for_club d club = HOME_MATCHES_PER_CLUB
         \<and> get_number_of_away_matches_for_club d club = AWAY_MATCHES_PER_CLUB"
    have "?P c = ?P c'" if "id_club c = id_club c'" for c c'
      using get_home_matches_for_club_cong [OF that, of d]
        get_away_matches_for_club_cong [OF that, of d]
      by (simp add: get_number_of_home_matches_for_club_def
          get_number_of_away_matches_for_club_def)
    from list_all_get_all_clubs [of ?P d, OF this]
    have "list_all ?P (get_all_clubs d) \<longleftrightarrow>
      (\<forall>club. get_number_of_matches_for_club d club \<noteq> 0 \<longrightarrow> ?P club)" .
    moreover have "check_home_away_balance d = list_all ?P (get_all_clubs d)"
      unfolding check_home_away_balance_def Let_def
      by (rule arg_cong [where f = "\<lambda>p. list_all p (get_all_clubs d)"]) auto
    ultimately show ?thesis by simp
  qed
  have 4: "check_opponents_per_chapeau d \<longleftrightarrow>
      (\<forall>club. get_number_of_matches_for_club d club \<noteq> 0 \<longrightarrow>
         list_all (\<lambda>(ch, expected_count).
             dict_get (opponents_by_chapeau d club) ch 0 = expected_count)
           OPPONENTS_PER_CHAPEAU)"
  proof -
    let ?P = "\<lambda>club. list_all (\<lambda>(ch, expected_count).
             \<not> dict_get (opponents_by_chapeau d club) ch 0 \<noteq> expected_count)
           OPPONENTS_PER_CHAPEAU"
    have "?P c = ?P c'" if "id_club c = id_club c'" for c c'
      using get_opponents_for_club_cong [OF that, of d]
      by (simp add: opponents_by_chapeau_def)
    from list_all_get_all_clubs [of ?P d, OF this] show ?thesis
      by (simp add: check_opponents_per_chapeau_def)
  qed
  have 5: "check_chapeau_home_away_distribution d \<longleftrightarrow>
      (\<forall>club. get_number_of_matches_for_club d club \<noteq> 0 \<longrightarrow>
         list_all (\<lambda>(ch, (expected_home, expected_away)).
             int (length (filter (\<lambda>m. chapeau_value (chapeau (club_away m)) = ch)
                    (get_home_matches_for_club d club))) = expected_home
             \<and> int (length (filter (\<lambda>m. chapeau_value (chapeau (club_home m)) = ch)
                      (get_away_matches_for_club d club))) = expected_away)
           DISTRIBUTION_CHAPEAUX)"
  proof -
    let ?P = "\<lambda>club. list_all (\<lambda>(ch, (expected_home, expected_away)).
             int (length (filter (\<lambda>m. chapeau_value (chapeau (club_away m)) = ch)
                    (get_home_matches_for_club d club))) = expected_home
             \<and> int (length (filter (\<lambda>m. chapeau_value (chapeau (club_home m)) = ch)
                      (get_away_matches_for_club d club))) = expected_away)
           DISTRIBUTION_CHAPEAUX"
    have "?P c = ?P c'" if "id_club c = id_club c'" for c c'
      using get_home_matches_for_club_cong [OF that, of d]
        get_away_matches_for_club_cong [OF that, of d]
      by simp
    from list_all_get_all_clubs [of ?P d, OF this] show ?thesis
      by (simp add: check_chapeau_home_away_distribution_def Let_def)
  qed
  have absent: "get_number_of_matches_for_club d c = 0 \<longrightarrow>
        (\<forall>x\<in>set (get_all_clubs d). id_club x \<noteq> id_club c)"
    using examined_iff_plays [of d c] by blast
  from 2 3 4 5 absent show ?thesis by (simp only: simp_thms)
qed

text \<open>In \<open>league_12\<close> the club \<open>club_A1\<close> plays, so the rules that hold there give its
  counts; \<open>club_absent\<close> plays no match and is not among the clubs examined.\<close>

theorem rules_examine_playing_clubs_witness:
  "get_number_of_matches_for_club league_12 club_A1 = 8
   \<and> get_number_of_home_matches_for_club league_12 club_A1 = 4
   \<and> get_number_of_away_matches_for_club league_12 club_A1 = 4
   \<and> get_number_of_matches_for_club league_12 club_absent = 0
   \<and> \<not> (\<exists>x\<in>set (get_all_clubs league_12). id_club x = id_club club_absent)"
proof -
  have plays: "get_number_of_matches_for_club league_12 club_A1 \<noteq> 0"
    by code_simp
  have absent: "get_number_of_matches_for_club league_12 club_absent = 0"
    by code_simp
  show ?thesis
    using rules_examine_playing_clubs [of league_12 club_absent]
      league_12_matches_per_club league_12_home_away plays absent
    by (simp add: MATCHES_PER_CLUB_def HOME_MATCHES_PER_CLUB_def AWAY_MATCHES_PER_CLUB_def)
qed

text \<open>
  Claim C2 as the specification states it fails: \<open>league_12\<close> has matches, all of them
  well constructed, \<open>club_absent\<close> plays in none of them, and yet rules 2 to 5 all hold;
  the engine reports the total and the streak rule only.
\<close>

theorem zero_match_club_counterexample:
  "matches league_12 \<noteq> []
   \<and> list_all well_constructed (matches league_12)
   \<and> get_number_of_matches_for_club league_12 club_absent = 0
   \<and> check_matches_per_club league_12
   \<and> check_home_away_balance league_12
   \<and> check_opponents_per_chapeau league_12
   \<and> check_chapeau_home_away_distribution league_12
   \<and> snd (verify_all_constraints UCLConstraints_init league_12)
       = [''total_matches'', ''no_consecutive_matches'']"
proof -
  have 1: "matches league_12 \<noteq> []"
    by (simp add: league_12_def)
  have 2: "get_number_of_matches_for_club league_12 club_absent = 0"
    by code_simp
  have 3: "snd (verify_all_constraints UCLConstraints_init league_12)
       = [''total_matches'', ''no_consecutive_matches'']"
    by (simp add: verify_all_constraints_eq UCLConstraints_init_def build_constraints_def
        is_satisfied_def league_12_checks)
  have 4: "list_all well_constructed (matches league_12)"
    by code_simp
  from 1 2 3 4 league_12_matches_per_club league_12_home_away league_12_opponents
    league_12_distribution
  show ?thesis by simp
qed

section \<open>The structural layer reports what it finds\<close>
















section \<open>The validator on clubs as the constructor accepts them\<close>

















end
